theory Spec2Isabelle
  imports Complex_Main "HOL-Library.AList"
begin

section \<open>JavaScript numbers\<close>

text \<open>
  A JavaScript number is an IEEE 754 binary64 value. A finite one is given here by the
  rational it stands for; the two zeros are not told apart (neither does \<open>===\<close>). A
  decimal literal such as \<open>1.85\<close> denotes the double nearest to it, \<open>roundDouble 1.85\<close>.
\<close>

datatype number = Finite rat | PlusInfinity | MinusInfinity | NaN

text \<open>\<open>ilog2 n\<close> is the position of the leading bit of a positive integer.\<close>

function ilog2 :: "int \<Rightarrow> int" where
  "ilog2 n = (if n < 2 then 0 else 1 + ilog2 (n div 2))"
  by pat_completeness auto
termination
  by (relation "measure nat") auto

declare ilog2.simps [simp del]

definition pow2 :: "int \<Rightarrow> rat" where
  "pow2 e = (if 0 \<le> e then 2 ^ nat e else 1 / 2 ^ nat (- e))"

text \<open>
  The binary exponent of a positive rational: the \<open>e\<close> with \<open>pow2 e \<le> x < pow2 (e + 1)\<close>.
  The quotient of two integers with leading bits at \<open>a\<close> and \<open>b\<close> lies between
  \<open>pow2 (a - b - 1)\<close> and \<open>pow2 (a - b + 1)\<close>, so one comparison decides.
\<close>

definition floorLog2 :: "rat \<Rightarrow> int" where
  "floorLog2 x =
     (case quotient_of x of (p, q) \<Rightarrow>
        (let d = ilog2 p - ilog2 q
         in if pow2 d \<le> x then d else d - 1))"

text \<open>Rounding to the nearest integer, a tie to the even one.\<close>

definition roundHalfEven :: "rat \<Rightarrow> int" where
  "roundHalfEven y =
     (let n = \<lfloor>y\<rfloor>; r = y - of_int n
      in if r < 1 / 2 then n else if 1 / 2 < r then n + 1 else if even n then n else n + 1)"

text \<open>
  Rounding a rational to binary64 (round to nearest, ties to even): a double has 53
  significant bits, so the doubles around \<open>x\<close> are the multiples of
  \<open>pow2 (e - 52)\<close> for the exponent \<open>e\<close> of \<open>x\<close>, and of \<open>pow2 (- 1074)\<close> below the
  normal range. A rounded value of magnitude \<open>pow2 1024\<close> or more is an infinity.
\<close>

definition roundDouble :: "rat \<Rightarrow> number" where
  "roundDouble x =
     (if x = 0 then Finite 0
      else (let e = max (floorLog2 \<bar>x\<bar>) (- 1022);
                ulp = pow2 (e - 52);
                r = of_int (roundHalfEven (x / ulp)) * ulp
            in if r = 0 then Finite 0
               else if floorLog2 \<bar>r\<bar> < 1024 then Finite r
               else if 0 < r then PlusInfinity else MinusInfinity))"

text \<open>\<open>x + y\<close> on two numbers: the exact sum, rounded.\<close>

fun jsAdd :: "number \<Rightarrow> number \<Rightarrow> number" where
  "jsAdd (Finite a) (Finite b) = roundDouble (a + b)"
| "jsAdd NaN y = NaN"
| "jsAdd x NaN = NaN"
| "jsAdd PlusInfinity MinusInfinity = NaN"
| "jsAdd MinusInfinity PlusInfinity = NaN"
| "jsAdd PlusInfinity y = PlusInfinity"
| "jsAdd x PlusInfinity = PlusInfinity"
| "jsAdd MinusInfinity y = MinusInfinity"
| "jsAdd x MinusInfinity = MinusInfinity"

section \<open>Data model (shared/schema.ts)\<close>

text \<open>
  The rows of the storage module. Identifiers are the serial numbers of the schema,
  scores are nullable integers (\<open>None\<close> is \<open>null\<close>), statuses and market types are the
  free strings the code stores. Each field carries the name of its table as a prefix
  (\<open>bet_status\<close> is \<open>bet.status\<close>), since several tables share column names.
  Amounts of money (\<open>balance\<close>, \<open>stake\<close>, \<open>odds\<close>, \<open>potentialWin\<close>) are JavaScript
  numbers, the type \<open>number\<close> above. The columns of a match that settlement never reads (team
  references, names, logos, start time) are left out of the record.
\<close>

record user =
  user_id :: nat
  user_username :: string
  user_password :: string
  user_balance :: number

record match =
  match_id :: nat
  match_leagueId :: nat
  match_homeScore :: "int option"
  match_awayScore :: "int option"
  match_htHomeScore :: "int option"
  match_htAwayScore :: "int option"
  match_status :: string
  match_isCustom :: bool

record market =
  market_id :: nat
  market_matchId :: nat
  market_type :: string
  market_odds :: number
  market_isLocked :: bool

record bet =
  bet_id :: nat
  bet_userId :: nat
  bet_stake :: number
  bet_totalOdds :: number
  bet_potentialWin :: number
  bet_status :: string
  bet_createdAt :: nat

record betSelection =
  selection_id :: nat
  selection_betId :: nat
  selection_marketId :: nat
  selection_odds :: number

text \<open>
  \<open>MemStorage\<close> keeps one JavaScript \<open>Map\<close> per table. A \<open>Map\<close> iterates in insertion
  order and \<open>set\<close> on a present key replaces the value in place, which is what
  \<open>AList.update\<close> does on an association list; \<open>get\<close> is \<open>map_of\<close> and
  \<open>Array.from(m.values())\<close> is \<open>map snd\<close>.
\<close>

record storage =
  users :: "(nat \<times> user) list"
  matches :: "(nat \<times> match) list"
  markets :: "(nat \<times> market) list"
  bets :: "(nat \<times> bet) list"
  betSelections :: "(nat \<times> betSelection) list"

section \<open>The market outcome evaluator\<close>

text \<open>
  \<open>isBetWinner\<close> and \<open>isBetPush\<close> as declared inside \<open>resolveBetsForMatch\<close> of the
  storage module. The two half-time parameters have the default value 0, which
  JavaScript applies when the argument is \<open>undefined\<close>: \<open>None\<close> here.
\<close>

definition isBetWinner :: "string \<Rightarrow> int \<Rightarrow> int \<Rightarrow> int option \<Rightarrow> int option \<Rightarrow> bool" where
  "isBetWinner marketType homeScore awayScore htHomeArg htAwayArg =
    (let htHomeScore = (case htHomeArg of None \<Rightarrow> 0 | Some v \<Rightarrow> v);
         htAwayScore = (case htAwayArg of None \<Rightarrow> 0 | Some v \<Rightarrow> v);
         totalGoals = homeScore + awayScore;
         htTotalGoals = htHomeScore + htAwayScore
     in
       if marketType = ''1'' then homeScore > awayScore
       else if marketType = ''X'' then homeScore = awayScore
       else if marketType = ''2'' then awayScore > homeScore
       else if marketType = ''OVER_1_5'' then (of_int totalGoals :: rat) > 1.5
       else if marketType = ''UNDER_1_5'' then (of_int totalGoals :: rat) < 1.5
       else if marketType = ''OVER_2_5'' then (of_int totalGoals :: rat) > 2.5
       else if marketType = ''UNDER_2_5'' then (of_int totalGoals :: rat) < 2.5
       else if marketType = ''OVER_3_5'' then (of_int totalGoals :: rat) > 3.5
       else if marketType = ''UNDER_3_5'' then (of_int totalGoals :: rat) < 3.5
       else if marketType = ''BTTS_YES'' then homeScore > 0 \<and> awayScore > 0
       else if marketType = ''BTTS_NO'' then homeScore = 0 \<or> awayScore = 0
       else if marketType = ''DNB_1'' then homeScore > awayScore
       else if marketType = ''DNB_2'' then awayScore > homeScore
       else if marketType = ''DC_1X'' then homeScore \<ge> awayScore
       else if marketType = ''DC_12'' then homeScore \<noteq> awayScore
       else if marketType = ''DC_X2'' then awayScore \<ge> homeScore
       else if marketType = ''HT_1'' then htHomeScore > htAwayScore
       else if marketType = ''HT_X'' then htHomeScore = htAwayScore
       else if marketType = ''HT_2'' then htAwayScore > htHomeScore
       else if marketType = ''HT_OVER_0_5'' then (of_int htTotalGoals :: rat) > 0.5
       else if marketType = ''HT_UNDER_0_5'' then (of_int htTotalGoals :: rat) < 0.5
       else if marketType = ''HT_OVER_1_5'' then (of_int htTotalGoals :: rat) > 1.5
       else if marketType = ''HT_UNDER_1_5'' then (of_int htTotalGoals :: rat) < 1.5
       else if marketType = ''HT_BTTS_YES'' then htHomeScore > 0 \<and> htAwayScore > 0
       else if marketType = ''HT_BTTS_NO'' then htHomeScore = 0 \<or> htAwayScore = 0
       else if marketType = ''HANDICAP_1_MINUS_1'' then (homeScore - 1) > awayScore
       else if marketType = ''HANDICAP_1_MINUS_2'' then (homeScore - 2) > awayScore
       else if marketType = ''HANDICAP_2_MINUS_1'' then homeScore < (awayScore - 1)
       else if marketType = ''HANDICAP_2_MINUS_2'' then homeScore < (awayScore - 2)
       else if marketType = ''WIN_BOTH_HALVES_1'' then
         (let secondHalfHome = homeScore - htHomeScore;
              secondHalfAway = awayScore - htAwayScore
          in htHomeScore > htAwayScore \<and> secondHalfHome > secondHalfAway)
       else if marketType = ''WIN_BOTH_HALVES_2'' then
         (let secondHalfHome = homeScore - htHomeScore;
              secondHalfAway = awayScore - htAwayScore
          in htAwayScore > htHomeScore \<and> secondHalfAway > secondHalfHome)
       else if marketType = ''WIN_EITHER_HALF_1'' then
         (let secondHalfHome = homeScore - htHomeScore;
              secondHalfAway = awayScore - htAwayScore
          in htHomeScore > htAwayScore \<or> secondHalfHome > secondHalfAway)
       else if marketType = ''WIN_EITHER_HALF_2'' then
         (let secondHalfHome = homeScore - htHomeScore;
              secondHalfAway = awayScore - htAwayScore
          in htAwayScore > htHomeScore \<or> secondHalfAway > secondHalfHome)
       else False)"

definition isBetPush :: "string \<Rightarrow> int \<Rightarrow> int \<Rightarrow> bool" where
  "isBetPush marketType homeScore awayScore =
    (if marketType = ''DNB_1'' then homeScore = awayScore
     else if marketType = ''DNB_2'' then homeScore = awayScore
     else False)"

text \<open>
  The same two functions as exported from \<open>client/src/lib/utils.ts\<close>. The client
  writes the second-half differences inline instead of naming them.
\<close>

definition isBetWinner_client :: "string \<Rightarrow> int \<Rightarrow> int \<Rightarrow> int option \<Rightarrow> int option \<Rightarrow> bool" where
  "isBetWinner_client marketType homeScore awayScore htHomeArg htAwayArg =
    (let htHomeScore = (case htHomeArg of None \<Rightarrow> 0 | Some v \<Rightarrow> v);
         htAwayScore = (case htAwayArg of None \<Rightarrow> 0 | Some v \<Rightarrow> v);
         totalGoals = homeScore + awayScore;
         htTotalGoals = htHomeScore + htAwayScore
     in
       if marketType = ''1'' then homeScore > awayScore
       else if marketType = ''X'' then homeScore = awayScore
       else if marketType = ''2'' then awayScore > homeScore
       else if marketType = ''OVER_1_5'' then (of_int totalGoals :: rat) > 1.5
       else if marketType = ''UNDER_1_5'' then (of_int totalGoals :: rat) < 1.5
       else if marketType = ''OVER_2_5'' then (of_int totalGoals :: rat) > 2.5
       else if marketType = ''UNDER_2_5'' then (of_int totalGoals :: rat) < 2.5
       else if marketType = ''OVER_3_5'' then (of_int totalGoals :: rat) > 3.5
       else if marketType = ''UNDER_3_5'' then (of_int totalGoals :: rat) < 3.5
       else if marketType = ''BTTS_YES'' then homeScore > 0 \<and> awayScore > 0
       else if marketType = ''BTTS_NO'' then homeScore = 0 \<or> awayScore = 0
       else if marketType = ''DNB_1'' then homeScore > awayScore
       else if marketType = ''DNB_2'' then awayScore > homeScore
       else if marketType = ''DC_1X'' then homeScore \<ge> awayScore
       else if marketType = ''DC_12'' then homeScore \<noteq> awayScore
       else if marketType = ''DC_X2'' then awayScore \<ge> homeScore
       else if marketType = ''HT_1'' then htHomeScore > htAwayScore
       else if marketType = ''HT_X'' then htHomeScore = htAwayScore
       else if marketType = ''HT_2'' then htAwayScore > htHomeScore
       else if marketType = ''HT_OVER_0_5'' then (of_int htTotalGoals :: rat) > 0.5
       else if marketType = ''HT_UNDER_0_5'' then (of_int htTotalGoals :: rat) < 0.5
       else if marketType = ''HT_OVER_1_5'' then (of_int htTotalGoals :: rat) > 1.5
       else if marketType = ''HT_UNDER_1_5'' then (of_int htTotalGoals :: rat) < 1.5
       else if marketType = ''HT_BTTS_YES'' then htHomeScore > 0 \<and> htAwayScore > 0
       else if marketType = ''HT_BTTS_NO'' then htHomeScore = 0 \<or> htAwayScore = 0
       else if marketType = ''HANDICAP_1_MINUS_1'' then (homeScore - 1) > awayScore
       else if marketType = ''HANDICAP_1_MINUS_2'' then (homeScore - 2) > awayScore
       else if marketType = ''HANDICAP_2_MINUS_1'' then homeScore < (awayScore - 1)
       else if marketType = ''HANDICAP_2_MINUS_2'' then homeScore < (awayScore - 2)
       else if marketType = ''WIN_BOTH_HALVES_1'' then
         htHomeScore > htAwayScore \<and> (homeScore - htHomeScore) > (awayScore - htAwayScore)
       else if marketType = ''WIN_BOTH_HALVES_2'' then
         htAwayScore > htHomeScore \<and> (awayScore - htAwayScore) > (homeScore - htHomeScore)
       else if marketType = ''WIN_EITHER_HALF_1'' then
         htHomeScore > htAwayScore \<or> (homeScore - htHomeScore) > (awayScore - htAwayScore)
       else if marketType = ''WIN_EITHER_HALF_2'' then
         htAwayScore > htHomeScore \<or> (awayScore - htAwayScore) > (homeScore - htHomeScore)
       else False)"

definition isBetPush_client :: "string \<Rightarrow> int \<Rightarrow> int \<Rightarrow> bool" where
  "isBetPush_client marketType homeScore awayScore =
    (if marketType = ''DNB_1'' then homeScore = awayScore
     else if marketType = ''DNB_2'' then homeScore = awayScore
     else False)"

section \<open>The storage module\<close>

subsection \<open>Asynchronous methods\<close>

text \<open>
  Every method of \<open>MemStorage\<close> is an \<open>async\<close> function. A call runs the body up to its
  first \<open>await\<close> at once; what follows the \<open>await\<close> is a job on the microtask queue
  of the JavaScript engine, which runs the jobs first in, first out, each to its next
  \<open>await\<close>, before anything else of the process gets control. \<open>resolveBetsForMatch\<close>
  calls \<open>this.resolveBet(...)\<close> without awaiting it, so the order of these jobs
  decides what the storage holds afterwards, and the model keeps the queue explicit.

  A \<open>task\<close> is a suspended method together with the values its closure holds:
  \<^item> \<open>ResolveBet_gotUser betId status bet user\<close>: \<open>resolveBet\<close> resumed after
    \<open>await this.getUser(bet.userId)\<close>, with the row that \<open>getUser\<close> returned when it
    was called;
  \<^item> \<open>UpdateUserBalance_gotUser id balance user betId status\<close>: \<open>updateUserBalance\<close>
    resumed after \<open>await this.getUser(id)\<close>; \<open>betId\<close> and \<open>status\<close> belong to the
    \<open>resolveBet\<close> that awaits its result;
  \<^item> \<open>ResolveBet_balanceUpdated betId status\<close>: \<open>resolveBet\<close> resumed after
    \<open>await this.updateUserBalance(...)\<close>.
  A method returns the storage it leaves and the jobs it has put on the queue.
\<close>

datatype task =
    ResolveBet_gotUser nat string bet "user option"
  | UpdateUserBalance_gotUser nat number "user option" nat string
  | ResolveBet_balanceUpdated nat string

definition getUser :: "nat \<Rightarrow> storage \<Rightarrow> user option" where
  "getUser id' s = map_of (users s) id'"

text \<open>The last four lines of \<open>resolveBet\<close>: the status is written whatever it was before.\<close>

definition resolveBet_setStatus :: "nat \<Rightarrow> string \<Rightarrow> storage \<Rightarrow> storage" where
  "resolveBet_setStatus betId status s =
    (case map_of (bets s) betId of
       None \<Rightarrow> s
     | Some bet \<Rightarrow> s\<lparr>bets := AList.update betId (bet\<lparr>bet_status := status\<rparr>) (bets s)\<rparr>)"

text \<open>\<open>resolveBet\<close> from its call to its first \<open>await\<close>, or to its end when it meets none.\<close>

definition resolveBet_start :: "nat \<Rightarrow> string \<Rightarrow> storage \<Rightarrow> storage \<times> task list" where
  "resolveBet_start betId status s =
    (if status = ''WON'' then
       (case map_of (bets s) betId of
          Some bet \<Rightarrow> (s, [ResolveBet_gotUser betId status bet (getUser (bet_userId bet) s)])
        | None \<Rightarrow> (resolveBet_setStatus betId status s, []))
     else (resolveBet_setStatus betId status s, []))"

text \<open>
  One job of the queue. \<open>updateUserBalance\<close> is called inside the first job with the
  sum \<open>user.balance + bet.potentialWin\<close> (an addition of numbers, \<open>jsAdd\<close>) already
  computed from the row read earlier,
  and itself stops at \<open>await this.getUser(id)\<close>.
\<close>

fun exec_task :: "task \<Rightarrow> storage \<Rightarrow> storage \<times> task list" where
  "exec_task (ResolveBet_gotUser betId status bet user) s =
    (case user of
       Some u \<Rightarrow>
         (s, [UpdateUserBalance_gotUser (user_id u) (jsAdd (user_balance u) (bet_potentialWin bet))
                (getUser (user_id u) s) betId status])
     | None \<Rightarrow> (resolveBet_setStatus betId status s, []))"
| "exec_task (UpdateUserBalance_gotUser id' balance user betId status) s =
    (case user of
       None \<Rightarrow> (s, [ResolveBet_balanceUpdated betId status])
     | Some u \<Rightarrow>
         (s\<lparr>users := AList.update id' (u\<lparr>user_balance := balance\<rparr>) (users s)\<rparr>,
          [ResolveBet_balanceUpdated betId status]))"
| "exec_task (ResolveBet_balanceUpdated betId status) s =
    (resolveBet_setStatus betId status s, [])"

text \<open>The number of jobs a task still stands for; it bounds the run of the queue.\<close>

fun task_weight :: "task \<Rightarrow> nat" where
  "task_weight (ResolveBet_gotUser betId status bet user) = 3"
| "task_weight (UpdateUserBalance_gotUser id' balance user betId status) = 2"
| "task_weight (ResolveBet_balanceUpdated betId status) = 1"

text \<open>Running the microtask queue until it is empty.\<close>

function drain :: "task list \<Rightarrow> storage \<Rightarrow> storage" where
  "drain [] s = s"
| "drain (t # q) s = (case exec_task t s of (s', new) \<Rightarrow> drain (q @ new) s')"
  by pat_completeness auto
termination
proof (relation "measure (\<lambda>(q, s). sum_list (map task_weight q))")
  show "wf (measure (\<lambda>(q, s). sum_list (map task_weight q)))"
    by simp
next
  fix t :: task and q :: "task list" and s s' :: storage and new :: "task list"
  assume "(s', new) = exec_task t s"
  then have "sum_list (map task_weight new) < task_weight t"
    by (cases t) (auto split: option.splits)
  then show "((q @ new, s'), (t # q, s)) \<in> measure (\<lambda>(q, s). sum_list (map task_weight q))"
    by simp
qed

text \<open>\<open>await storage.resolveBet(betId, status)\<close>, as the two resolve routes run it.\<close>

definition resolveBet :: "nat \<Rightarrow> string \<Rightarrow> storage \<Rightarrow> storage" where
  "resolveBet betId status s = (case resolveBet_start betId status s of (s', q) \<Rightarrow> drain q s')"

subsection \<open>Settlement of a finished match\<close>

text \<open>\<open>x || 0\<close> on a nullable integer.\<close>

definition orZero :: "int option \<Rightarrow> int" where
  "orZero x = (case x of None \<Rightarrow> 0 | Some v \<Rightarrow> if v = 0 then 0 else v)"

text \<open>
  The inner loop of \<open>resolveBetsForMatch\<close> over the selections of one bet. The pair is
  \<open>(allSelectionsWon, hasAnyPush)\<close>; \<open>continue\<close> and the end of the body go to the
  rest of the list, \<open>break\<close> returns.
\<close>

fun selectionsLoop ::
  "(nat \<times> market) list \<Rightarrow> nat \<Rightarrow> match \<Rightarrow> int \<Rightarrow> int \<Rightarrow> betSelection list \<Rightarrow> bool \<times> bool \<Rightarrow> bool \<times> bool" where
  "selectionsLoop mkts matchId match h a [] flags = flags"
| "selectionsLoop mkts matchId match h a (selection # rest) (allSelectionsWon, hasAnyPush) =
    (case map_of mkts (selection_marketId selection) of
       None \<Rightarrow> selectionsLoop mkts matchId match h a rest (allSelectionsWon, hasAnyPush)
     | Some market \<Rightarrow>
         if market_matchId market = matchId then
           (let isWinner = isBetWinner (market_type market) h a
                             (Some (orZero (match_htHomeScore match)))
                             (Some (orZero (match_htAwayScore match)));
                isPush = isBetPush (market_type market) h a
            in if isPush then selectionsLoop mkts matchId match h a rest (allSelectionsWon, True)
               else if \<not> isWinner then (False, hasAnyPush)
               else selectionsLoop mkts matchId match h a rest (allSelectionsWon, hasAnyPush))
         else selectionsLoop mkts matchId match h a rest (allSelectionsWon, hasAnyPush))"

text \<open>
  The outer loop over \<open>Array.from(this.bets.values())\<close>, a copy of the rows taken before
  the loop starts. Each \<open>this.resolveBet(...)\<close> is run to its first \<open>await\<close> and the
  job it leaves is appended to the queue.
\<close>

fun betsLoop ::
  "nat \<Rightarrow> match \<Rightarrow> int \<Rightarrow> int \<Rightarrow> bet list \<Rightarrow> storage \<times> task list \<Rightarrow> storage \<times> task list" where
  "betsLoop matchId match h a [] st = st"
| "betsLoop matchId match h a (bet # rest) (s, q) =
    (if bet_status bet = ''PENDING'' then
       (case selectionsLoop (markets s) matchId match h a
               (filter (\<lambda>selection. selection_betId selection = bet_id bet)
                  (map snd (betSelections s)))
               (True, False) of
          (allSelectionsWon, hasAnyPush) \<Rightarrow>
            (case resolveBet_start (bet_id bet)
                    (if allSelectionsWon then (if hasAnyPush then ''PUSH'' else ''WON'')
                     else ''LOST'') s of
               (s', new) \<Rightarrow> betsLoop matchId match h a rest (s', q @ new)))
     else betsLoop matchId match h a rest (s, q))"

text \<open>The body of \<open>resolveBetsForMatch\<close>; it contains no \<open>await\<close>, so it runs in one piece.\<close>

definition resolveBetsForMatch_start :: "nat \<Rightarrow> storage \<Rightarrow> storage \<times> task list" where
  "resolveBetsForMatch_start matchId s =
    (case find (\<lambda>match. match_id match = matchId) (map snd (matches s)) of
       None \<Rightarrow> (s, [])
     | Some match \<Rightarrow>
         if match_status match \<noteq> ''FINISHED'' then (s, [])
         else (case match_homeScore match of
                 None \<Rightarrow> (s, [])
               | Some h \<Rightarrow>
                   (case match_awayScore match of
                      None \<Rightarrow> (s, [])
                    | Some a \<Rightarrow> betsLoop matchId match h a (map snd (bets s)) (s, []))))"

text \<open>
  \<open>resolveBetsForMatch\<close> together with the jobs it leaves behind: the storage once the
  microtask queue is empty, which is the storage the next request finds.
\<close>

definition resolveBetsForMatch :: "nat \<Rightarrow> storage \<Rightarrow> storage" where
  "resolveBetsForMatch matchId s =
    (case resolveBetsForMatch_start matchId s of (s', q) \<Rightarrow> drain q s')"

text \<open>
  \<open>updateMatchStatus\<close>. An omitted argument is \<open>undefined\<close> (\<open>None\<close>) and keeps the stored
  value; the half-time scores may also be passed as \<open>null\<close> (\<open>Some None\<close>). What follows
  \<open>await this.resolveBetsForMatch(id)\<close> only returns the updated row, so the storage
  it leaves is the one of \<open>resolveBetsForMatch\<close>.
\<close>

definition updateMatchStatus ::
  "nat \<Rightarrow> string \<Rightarrow> int option \<Rightarrow> int option \<Rightarrow> int option option \<Rightarrow> int option option \<Rightarrow>
   storage \<Rightarrow> match option \<times> storage" where
  "updateMatchStatus id' status homeScore awayScore htHomeScore htAwayScore s =
    (case map_of (matches s) id' of
       None \<Rightarrow> (None, s)
     | Some match \<Rightarrow>
         (let updatedMatch = match\<lparr>
                match_status := status,
                match_homeScore := (case homeScore of Some v \<Rightarrow> Some v | None \<Rightarrow> match_homeScore match),
                match_awayScore := (case awayScore of Some v \<Rightarrow> Some v | None \<Rightarrow> match_awayScore match),
                match_htHomeScore := (case htHomeScore of Some v \<Rightarrow> v | None \<Rightarrow> match_htHomeScore match),
                match_htAwayScore := (case htAwayScore of Some v \<Rightarrow> v | None \<Rightarrow> match_htAwayScore match)\<rparr>;
              s1 = s\<lparr>matches := AList.update id' updatedMatch (matches s)\<rparr>
          in (Some updatedMatch,
              if status = ''FINISHED'' then resolveBetsForMatch id' s1 else s1)))"

text \<open>
  The invariant of the storage class: every table is a \<open>Map\<close> (no key twice) and each
  row is stored under its own id, as \<open>createUser\<close>, \<open>createMatch\<close>, \<open>createMarket\<close> and
  \<open>createBet\<close> store it.
\<close>

definition keyed_by_id :: "storage \<Rightarrow> bool" where
  "keyed_by_id s \<longleftrightarrow>
     distinct (map fst (users s)) \<and> (\<forall>(k, u) \<in> set (users s). user_id u = k) \<and>
     distinct (map fst (matches s)) \<and> (\<forall>(k, m) \<in> set (matches s). match_id m = k) \<and>
     distinct (map fst (markets s)) \<and> (\<forall>(k, m) \<in> set (markets s). market_id m = k) \<and>
     distinct (map fst (bets s)) \<and> (\<forall>(k, b) \<in> set (bets s). bet_id b = k) \<and>
     distinct (map fst (betSelections s)) \<and> (\<forall>(k, x) \<in> set (betSelections s). selection_id x = k)"

section \<open>Notions of the specification\<close>

text \<open>
  The rule table of section 4.1 of the specification, row by row: a market type and its
  WIN condition on the full-time and half-time scores.
\<close>

definition ruleTable :: "(string \<times> (int \<Rightarrow> int \<Rightarrow> int \<Rightarrow> int \<Rightarrow> bool)) list" where
  "ruleTable =
    [(''1'', \<lambda>home away htHome htAway. home > away),
     (''X'', \<lambda>home away htHome htAway. home = away),
     (''2'', \<lambda>home away htHome htAway. away > home),
     (''OVER_1_5'', \<lambda>home away htHome htAway. (of_int (home + away) :: rat) > 1.5),
     (''UNDER_1_5'', \<lambda>home away htHome htAway. (of_int (home + away) :: rat) < 1.5),
     (''OVER_2_5'', \<lambda>home away htHome htAway. (of_int (home + away) :: rat) > 2.5),
     (''UNDER_2_5'', \<lambda>home away htHome htAway. (of_int (home + away) :: rat) < 2.5),
     (''OVER_3_5'', \<lambda>home away htHome htAway. (of_int (home + away) :: rat) > 3.5),
     (''UNDER_3_5'', \<lambda>home away htHome htAway. (of_int (home + away) :: rat) < 3.5),
     (''BTTS_YES'', \<lambda>home away htHome htAway. home > 0 \<and> away > 0),
     (''BTTS_NO'', \<lambda>home away htHome htAway. home = 0 \<or> away = 0),
     (''DNB_1'', \<lambda>home away htHome htAway. home > away),
     (''DNB_2'', \<lambda>home away htHome htAway. away > home),
     (''DC_1X'', \<lambda>home away htHome htAway. home \<ge> away),
     (''DC_12'', \<lambda>home away htHome htAway. home \<noteq> away),
     (''DC_X2'', \<lambda>home away htHome htAway. away \<ge> home),
     (''HT_1'', \<lambda>home away htHome htAway. htHome > htAway),
     (''HT_X'', \<lambda>home away htHome htAway. htHome = htAway),
     (''HT_2'', \<lambda>home away htHome htAway. htAway > htHome),
     (''HT_OVER_0_5'', \<lambda>home away htHome htAway. (of_int (htHome + htAway) :: rat) > 0.5),
     (''HT_UNDER_0_5'', \<lambda>home away htHome htAway. (of_int (htHome + htAway) :: rat) < 0.5),
     (''HT_OVER_1_5'', \<lambda>home away htHome htAway. (of_int (htHome + htAway) :: rat) > 1.5),
     (''HT_UNDER_1_5'', \<lambda>home away htHome htAway. (of_int (htHome + htAway) :: rat) < 1.5),
     (''HT_BTTS_YES'', \<lambda>home away htHome htAway. htHome > 0 \<and> htAway > 0),
     (''HT_BTTS_NO'', \<lambda>home away htHome htAway. htHome = 0 \<or> htAway = 0),
     (''HANDICAP_1_MINUS_1'', \<lambda>home away htHome htAway. (home - 1) > away),
     (''HANDICAP_1_MINUS_2'', \<lambda>home away htHome htAway. (home - 2) > away),
     (''HANDICAP_2_MINUS_1'', \<lambda>home away htHome htAway. home < (away - 1)),
     (''HANDICAP_2_MINUS_2'', \<lambda>home away htHome htAway. home < (away - 2)),
     (''WIN_BOTH_HALVES_1'', \<lambda>home away htHome htAway. htHome > htAway \<and> (home - htHome) > (away - htAway)),
     (''WIN_BOTH_HALVES_2'', \<lambda>home away htHome htAway. htAway > htHome \<and> (away - htAway) > (home - htHome)),
     (''WIN_EITHER_HALF_1'', \<lambda>home away htHome htAway. htHome > htAway \<or> (home - htHome) > (away - htAway)),
     (''WIN_EITHER_HALF_2'', \<lambda>home away htHome htAway. htAway > htHome \<or> (away - htAway) > (home - htHome))]"

text \<open>
  The selections of a bet that a settlement pass for \<open>matchId\<close> looks at, given by
  their markets: the selections of the bet, of these the ones whose market exists, of
  these the ones whose market belongs to the match.
\<close>

definition relevantMarkets :: "storage \<Rightarrow> nat \<Rightarrow> bet \<Rightarrow> market list" where
  "relevantMarkets s matchId bet =
     filter (\<lambda>market. market_matchId market = matchId)
       (List.map_filter (\<lambda>selection. map_of (markets s) (selection_marketId selection))
          (filter (\<lambda>selection. selection_betId selection = bet_id bet) (map snd (betSelections s))))"

text \<open>
  The aggregation rule in the words of the specification: LOST if some selection is
  neither a winner nor a push, otherwise PUSH if some selection is a push, otherwise WON.
\<close>

definition aggregateStatus :: "market list \<Rightarrow> int \<Rightarrow> int \<Rightarrow> int \<Rightarrow> int \<Rightarrow> string" where
  "aggregateStatus mks h a hh ha =
     (if \<exists>market \<in> set mks. \<not> isBetWinner (market_type market) h a (Some hh) (Some ha) \<and>
                              \<not> isBetPush (market_type market) h a then ''LOST''
      else if \<exists>market \<in> set mks. isBetPush (market_type market) h a then ''PUSH''
      else ''WON'')"

text \<open>The status that the aggregation rule gives a bet in a pass for \<open>matchId\<close>.\<close>

definition betOutcome :: "storage \<Rightarrow> nat \<Rightarrow> match \<Rightarrow> int \<Rightarrow> int \<Rightarrow> bet \<Rightarrow> string" where
  "betOutcome s matchId match h a bet =
     aggregateStatus (relevantMarkets s matchId bet) h a
       (orZero (match_htHomeScore match)) (orZero (match_htAwayScore match))"

text \<open>The guard of \<open>resolveBetsForMatch\<close> is passed with this row and these scores.\<close>

definition finishedWith :: "storage \<Rightarrow> nat \<Rightarrow> match \<Rightarrow> int \<Rightarrow> int \<Rightarrow> bool" where
  "finishedWith s matchId match h a \<longleftrightarrow>
     find (\<lambda>match. match_id match = matchId) (map snd (matches s)) = Some match \<and>
     match_status match = ''FINISHED'' \<and>
     match_homeScore match = Some h \<and> match_awayScore match = Some a"

section \<open>Auxiliary notions\<close>

text \<open>What a settlement pass does to one row of the bets table.\<close>

definition settleRow :: "storage \<Rightarrow> nat \<Rightarrow> match \<Rightarrow> int \<Rightarrow> int \<Rightarrow> nat \<times> bet \<Rightarrow> nat \<times> bet" where
  "settleRow s matchId match h a row =
     (fst row, if bet_status (snd row) = ''PENDING''
               then (snd row)\<lparr>bet_status := betOutcome s matchId match h a (snd row)\<rparr>
               else snd row)"

text \<open>Writing one status into the rows with the given keys.\<close>

definition setStatusAt :: "nat set \<Rightarrow> string \<Rightarrow> (nat \<times> bet) list \<Rightarrow> (nat \<times> bet) list" where
  "setStatusAt K st al = map (\<lambda>(k, b). (k, if k \<in> K then b\<lparr>bet_status := st\<rparr> else b)) al"

text \<open>The bet, the status and the user row a suspended method will write to.\<close>

fun task_bet :: "task \<Rightarrow> nat" where
  "task_bet (ResolveBet_gotUser betId status bet user) = betId"
| "task_bet (UpdateUserBalance_gotUser id' balance user betId status) = betId"
| "task_bet (ResolveBet_balanceUpdated betId status) = betId"

fun task_status :: "task \<Rightarrow> string" where
  "task_status (ResolveBet_gotUser betId status bet user) = status"
| "task_status (UpdateUserBalance_gotUser id' balance user betId status) = status"
| "task_status (ResolveBet_balanceUpdated betId status) = status"

fun task_user :: "task \<Rightarrow> nat option" where
  "task_user (ResolveBet_gotUser betId status bet user) = map_option user_id user"
| "task_user (UpdateUserBalance_gotUser id' balance user betId status) = Some id'"
| "task_user (ResolveBet_balanceUpdated betId status) = None"

text \<open>The job that \<open>resolveBet(bet.id, "WON")\<close> leaves on the queue.\<close>

definition wonTask :: "storage \<Rightarrow> bet \<Rightarrow> task" where
  "wonTask s bet = ResolveBet_gotUser (bet_id bet) ''WON'' bet (map_of (users s) (bet_userId bet))"

section \<open>Example storages\<close>

text \<open>
  Three small storages on which the theorems below are instantiated: a shop with one
  upcoming match and two single bets, a cup day with a finished match (1-1, half time
  1-0), an upcoming replay and accumulators across both, and a storage whose two pending
  bets have no selection on the finished match.
\<close>

definition demoUser :: user where
  "demoUser = \<lparr>user_id = 1, user_username = ''demo'', user_password = ''password'',
                user_balance = Finite 1000\<rparr>"

definition secondUser :: user where
  "secondUser = \<lparr>user_id = 2, user_username = ''guest'', user_password = ''secret'',
                  user_balance = Finite 500\<rparr>"

definition derby :: match where
  "derby = \<lparr>match_id = 1, match_leagueId = 1, match_homeScore = None, match_awayScore = None,
             match_htHomeScore = None, match_htAwayScore = None, match_status = ''UPCOMING'',
             match_isCustom = False\<rparr>"

definition homeWin :: market where
  "homeWin = \<lparr>market_id = 1, market_matchId = 1, market_type = ''1'',
               market_odds = roundDouble 1.85,
               market_isLocked = False\<rparr>"

definition awayWin :: market where
  "awayWin = \<lparr>market_id = 2, market_matchId = 1, market_type = ''2'',
               market_odds = roundDouble 4.2,
               market_isLocked = False\<rparr>"

definition singleBet :: bet where
  "singleBet = \<lparr>bet_id = 1, bet_userId = 1, bet_stake = Finite 10,
                 bet_totalOdds = roundDouble 1.85, bet_potentialWin = Finite 18.5, bet_status = ''PENDING'', bet_createdAt = 0\<rparr>"

definition rivalBet :: bet where
  "rivalBet = \<lparr>bet_id = 2, bet_userId = 2, bet_stake = Finite 5,
                bet_totalOdds = roundDouble 4.2, bet_potentialWin = Finite 21, bet_status = ''PENDING'', bet_createdAt = 1\<rparr>"

definition openShop :: storage where
  "openShop = \<lparr>
     users = [(1, demoUser), (2, secondUser)],
     matches = [(1, derby)],
     markets = [(1, homeWin), (2, awayWin)],
     bets = [(1, singleBet), (2, rivalBet)],
     betSelections =
       [(1, \<lparr>selection_id = 1, selection_betId = 1, selection_marketId = 1,
               selection_odds = roundDouble 1.85\<rparr>),
        (2, \<lparr>selection_id = 2, selection_betId = 2, selection_marketId = 2,
               selection_odds = roundDouble 4.2\<rparr>)]\<rparr>"

definition cupFinal :: match where
  "cupFinal = \<lparr>match_id = 1, match_leagueId = 1, match_homeScore = Some 1, match_awayScore = Some 1,
                match_htHomeScore = Some 1, match_htAwayScore = Some 0, match_status = ''FINISHED'',
                match_isCustom = False\<rparr>"

definition replay :: match where
  "replay = \<lparr>match_id = 2, match_leagueId = 1, match_homeScore = None, match_awayScore = None,
              match_htHomeScore = None, match_htAwayScore = None, match_status = ''UPCOMING'',
              match_isCustom = False\<rparr>"

definition cupBet :: "nat \<Rightarrow> nat \<Rightarrow> rat \<Rightarrow> string \<Rightarrow> bet" where
  "cupBet i u w st = \<lparr>bet_id = i, bet_userId = u, bet_stake = Finite 10,
                       bet_totalOdds = Finite (w / 10), bet_potentialWin = Finite w, bet_status = st, bet_createdAt = i\<rparr>"

definition cupMarket :: "nat \<Rightarrow> nat \<Rightarrow> string \<Rightarrow> market" where
  "cupMarket i m ty = \<lparr>market_id = i, market_matchId = m, market_type = ty,
                        market_odds = Finite 2,
                        market_isLocked = False\<rparr>"

definition cupSelection :: "nat \<Rightarrow> nat \<Rightarrow> nat \<Rightarrow> betSelection" where
  "cupSelection i b m = \<lparr>selection_id = i, selection_betId = b, selection_marketId = m,
                         selection_odds = Finite 2\<rparr>"

definition cupDay :: storage where
  "cupDay = \<lparr>
     users = [(1, demoUser), (2, secondUser)],
     matches = [(1, cupFinal), (2, replay)],
     markets = [(1, cupMarket 1 1 ''OVER_1_5''), (2, cupMarket 2 1 ''1''),
                (3, cupMarket 3 2 ''1''), (4, cupMarket 4 1 ''DNB_1'')],
     bets = [(1, cupBet 1 1 80 ''PENDING''), (2, cupBet 2 1 40 ''PENDING''),
             (3, cupBet 3 2 20 ''PENDING''), (4, cupBet 4 1 20 ''LOST'')],
     betSelections =
       [(1, cupSelection 1 1 4), (2, cupSelection 2 1 1), (3, cupSelection 3 1 3),
        (4, cupSelection 4 2 4), (5, cupSelection 5 2 2),
        (6, cupSelection 6 3 3), (7, cupSelection 7 4 1)]\<rparr>"

definition twoUnrelated :: storage where
  "twoUnrelated = \<lparr>
     users = [(1, demoUser)],
     matches = [(1, cupFinal)],
     markets = [(3, cupMarket 3 2 ''1'')],
     bets = [(1, cupBet 1 1 10 ''PENDING''), (2, cupBet 2 1 20 ''PENDING'')],
     betSelections = [(1, cupSelection 1 1 3), (2, cupSelection 2 2 5)]\<rparr>"

text \<open>
  The shop again, where user 1 has a second PENDING bet: in \<open>hedgedShop\<close> on the away
  win, in \<open>busyShop\<close> on the home win like the first. Then the first shop with the
  balance that JavaScript reads from \<open>0.1\<close>, and a storage with one bet whose potential
  win is read from \<open>0.2\<close>.
\<close>

definition hedgeBet :: bet where
  "hedgeBet = \<lparr>bet_id = 3, bet_userId = 1, bet_stake = Finite 5,
                bet_totalOdds = roundDouble 4.2, bet_potentialWin = Finite 21,
                bet_status = ''PENDING'', bet_createdAt = 2\<rparr>"

definition hedgedShop :: storage where
  "hedgedShop = \<lparr>
     users = [(1, demoUser), (2, secondUser)],
     matches = [(1, derby)],
     markets = [(1, homeWin), (2, awayWin)],
     bets = [(1, singleBet), (2, rivalBet), (3, hedgeBet)],
     betSelections =
       [(1, \<lparr>selection_id = 1, selection_betId = 1, selection_marketId = 1,
               selection_odds = roundDouble 1.85\<rparr>),
        (2, \<lparr>selection_id = 2, selection_betId = 2, selection_marketId = 2,
               selection_odds = roundDouble 4.2\<rparr>),
        (3, \<lparr>selection_id = 3, selection_betId = 3, selection_marketId = 2,
               selection_odds = roundDouble 4.2\<rparr>)]\<rparr>"

definition secondBet :: bet where
  "secondBet = \<lparr>bet_id = 3, bet_userId = 1, bet_stake = Finite 100,
                 bet_totalOdds = roundDouble 1.85, bet_potentialWin = Finite 185,
                 bet_status = ''PENDING'', bet_createdAt = 2\<rparr>"

definition busyShop :: storage where
  "busyShop = \<lparr>
     users = [(1, demoUser), (2, secondUser)],
     matches = [(1, derby)],
     markets = [(1, homeWin), (2, awayWin)],
     bets = [(1, singleBet), (2, rivalBet), (3, secondBet)],
     betSelections =
       [(1, \<lparr>selection_id = 1, selection_betId = 1, selection_marketId = 1,
               selection_odds = roundDouble 1.85\<rparr>),
        (2, \<lparr>selection_id = 2, selection_betId = 2, selection_marketId = 2,
               selection_odds = roundDouble 4.2\<rparr>),
        (3, \<lparr>selection_id = 3, selection_betId = 3, selection_marketId = 1,
               selection_odds = roundDouble 1.85\<rparr>)]\<rparr>"

definition pennyUser :: user where
  "pennyUser = \<lparr>user_id = 1, user_username = ''demo'', user_password = ''password'',
                 user_balance = roundDouble 0.1\<rparr>"

definition pennyShop :: storage where
  "pennyShop = \<lparr>
     users = [(1, pennyUser), (2, secondUser)],
     matches = [(1, derby)],
     markets = [(1, homeWin), (2, awayWin)],
     bets = [(1, singleBet), (2, rivalBet)],
     betSelections =
       [(1, \<lparr>selection_id = 1, selection_betId = 1, selection_marketId = 1,
               selection_odds = roundDouble 1.85\<rparr>),
        (2, \<lparr>selection_id = 2, selection_betId = 2, selection_marketId = 2,
               selection_odds = roundDouble 4.2\<rparr>)]\<rparr>"

definition centUser :: user where
  "centUser = \<lparr>user_id = 1, user_username = ''demo'', user_password = ''password'',
                user_balance = roundDouble 0.1\<rparr>"

definition centBet :: bet where
  "centBet = \<lparr>bet_id = 1, bet_userId = 1, bet_stake = roundDouble 0.1,
               bet_totalOdds = Finite 2, bet_potentialWin = roundDouble 0.2,
               bet_status = ''PENDING'', bet_createdAt = 0\<rparr>"

definition centShop :: storage where
  "centShop = \<lparr>users = [(1, centUser)], matches = [], markets = [],
                bets = [(1, centBet)], betSelections = []\<rparr>"

section \<open>Lemmas\<close>

subsection \<open>Numbers\<close>

text \<open>
  \<open>floorLog2\<close> is the binary exponent, \<open>roundHalfEven\<close> is within a half of its
  argument, and a finite \<open>roundDouble x\<close> is a multiple of the spacing of the doubles
  at \<open>x\<close>, at most half a spacing away from \<open>x\<close>.
\<close>

lemma ilog2_bounds:
  "1 \<le> n \<Longrightarrow> 0 \<le> ilog2 n \<and> 2 ^ nat (ilog2 n) \<le> n \<and> n < 2 * 2 ^ nat (ilog2 n)"
proof (induction n rule: ilog2.induct)
  case (1 n)
  show ?case
  proof (cases "n < 2")
    case True
    with "1.prems" have "n = 1" by simp
    then show ?thesis by (simp add: ilog2.simps)
  next
    case False
    then have h: "1 \<le> n div 2" by simp
    define k where "k = nat (ilog2 (n div 2))"
    define m :: int where "m = 2 ^ k"
    from "1.IH" [OF False h] have ih: "0 \<le> ilog2 (n div 2)" "m \<le> n div 2" "n div 2 < 2 * m"
      by (simp_all add: k_def m_def)
    have eq: "ilog2 n = 1 + ilog2 (n div 2)" using False by (subst ilog2.simps) simp
    from ih(1) have n1: "nat (ilog2 n) = Suc k" by (simp add: eq k_def)
    have "2 * m \<le> n" "n < 2 * (2 * m)" using ih(2,3) by linarith+
    then show ?thesis using ih(1) unfolding n1 by (simp add: eq m_def)
  qed
qed

lemma pow2_pos: "0 < pow2 e"
  by (simp add: pow2_def)

lemma pow2_add: "pow2 (a + b) = pow2 a * pow2 b"
proof -
  have "pow2 e = 2 powi e" for e
    by (simp add: pow2_def power_int_def field_simps)
  then show ?thesis by (simp add: power_int_add)
qed

lemma pow2_of_int: "0 \<le> e \<Longrightarrow> pow2 e = of_int (2 ^ nat e)"
  by (simp add: pow2_def)

lemma floorLog2_bounds:
  assumes "0 < x"
  shows "pow2 (floorLog2 x) \<le> x \<and> x < pow2 (floorLog2 x + 1)"
proof -
  obtain p q where pq: "quotient_of x = (p, q)" by (cases "quotient_of x")
  then have q: "0 < q" and x: "x = of_int p / of_int q"
    by (simp_all add: quotient_of_denom_pos quotient_of_div)
  with assms have p: "0 < p" by (simp add: zero_less_divide_iff)
  define a where "a = ilog2 p"
  define b where "b = ilog2 q"
  from p q ilog2_bounds [of p] ilog2_bounds [of q]
  have a: "0 \<le> a" "2 ^ nat a \<le> p" "p < 2 * 2 ^ nat a"
    and b: "0 \<le> b" "2 ^ nat b \<le> q" "q < 2 * 2 ^ nat b"
    by (simp_all add: a_def b_def)
  have two: "pow2 (e + 1) = 2 * pow2 e" for e
    by (simp add: pow2_add) (simp add: pow2_def)
  from a(2,3) have "(of_int (2 ^ nat a) :: rat) \<le> of_int p" "(of_int p :: rat) < of_int (2 * 2 ^ nat a)"
    by (simp_all only: of_int_le_iff of_int_less_iff)
  then have pa: "pow2 a \<le> of_int p" "of_int p < pow2 (a + 1)"
    using a(1) by (simp_all add: two pow2_of_int)
  from b(2,3) have "(of_int (2 ^ nat b) :: rat) \<le> of_int q" "(of_int q :: rat) < of_int (2 * 2 ^ nat b)"
    by (simp_all only: of_int_le_iff of_int_less_iff)
  then have qb: "pow2 b \<le> of_int q" "of_int q < pow2 (b + 1)"
    using b(1) by (simp_all add: two pow2_of_int)
  have qpos: "(0::rat) < of_int q" using q by simp
  have up: "x < pow2 (a - b + 1)"
  proof -
    have "pow2 (a + 1) = pow2 (a - b + 1) * pow2 b"
      using pow2_add [of "a - b + 1" b] by simp
    also have "\<dots> \<le> pow2 (a - b + 1) * of_int q"
      using qb(1) pow2_pos [of "a - b + 1"] by (intro mult_left_mono) simp_all
    finally have "of_int p < pow2 (a - b + 1) * of_int q" using pa(2) by linarith
    then show ?thesis using qpos by (simp add: x pos_divide_less_eq)
  qed
  have low: "pow2 (a - b - 1) < x"
  proof -
    have "pow2 (a - b - 1) * of_int q < pow2 (a - b - 1) * pow2 (b + 1)"
      using qb(2) pow2_pos [of "a - b - 1"] by (intro mult_strict_left_mono) simp_all
    also have "\<dots> = pow2 a"
      using pow2_add [of "a - b - 1" "b + 1"] by simp
    finally have "pow2 (a - b - 1) * of_int q < of_int p" using pa(1) by linarith
    then show ?thesis using qpos by (simp add: x pos_less_divide_eq)
  qed
  have d: "ilog2 p - ilog2 q = a - b" by (simp add: a_def b_def)
  show ?thesis
  proof (cases "pow2 (a - b) \<le> x")
    case True
    with up show ?thesis by (simp add: floorLog2_def pq Let_def d)
  next
    case False
    with low show ?thesis by (simp add: floorLog2_def pq Let_def d)
  qed
qed

lemma roundHalfEven_near: "\<bar>of_int (roundHalfEven y) - y\<bar> \<le> 1 / 2"
proof -
  have "of_int \<lfloor>y\<rfloor> \<le> y" "y < of_int \<lfloor>y\<rfloor> + 1" by linarith+
  then show ?thesis by (auto simp: roundHalfEven_def Let_def abs_le_iff)
qed


lemma roundDouble_nearest:
  assumes "roundDouble x = Finite r" and "x \<noteq> 0"
  shows "(\<exists>n::int. r = of_int n * pow2 (max (floorLog2 \<bar>x\<bar>) (- 1022) - 52)) \<and>
         \<bar>r - x\<bar> \<le> pow2 (max (floorLog2 \<bar>x\<bar>) (- 1022) - 52) / 2"
proof -
  define ulp where "ulp = pow2 (max (floorLog2 \<bar>x\<bar>) (- 1022) - 52)"
  define n where "n = roundHalfEven (x / ulp)"
  have pos: "0 < ulp" by (simp add: ulp_def pow2_pos)
  from assms have r: "r = of_int n * ulp"
    by (auto simp: roundDouble_def Let_def ulp_def n_def split: if_splits)
  have "\<bar>of_int n - x / ulp\<bar> \<le> 1 / 2" unfolding n_def by (rule roundHalfEven_near)
  then have "\<bar>of_int n - x / ulp\<bar> * ulp \<le> 1 / 2 * ulp"
    using pos by (intro mult_right_mono) simp_all
  moreover have "\<bar>of_int n - x / ulp\<bar> * ulp = \<bar>of_int n * ulp - x\<bar>"
  proof -
    have "\<bar>of_int n - x / ulp\<bar> * ulp = \<bar>of_int n - x / ulp\<bar> * \<bar>ulp\<bar>"
      using pos by simp
    also have "\<dots> = \<bar>(of_int n - x / ulp) * ulp\<bar>" by (simp only: abs_mult)
    also have "(of_int n - x / ulp) * ulp = of_int n * ulp - x"
      using pos by (simp add: left_diff_distrib)
    finally show ?thesis .
  qed
  ultimately have "\<bar>r - x\<bar> \<le> ulp / 2" by (simp add: r)
  with r show ?thesis unfolding ulp_def by blast
qed

text \<open>The sums that the examples need, and the doubles of \<open>0.1\<close> and \<open>0.2\<close>.\<close>

lemma roundDouble_examples:
  "roundDouble 1010 = Finite 1010" "roundDouble 1020 = Finite 1020"
  "roundDouble 1080 = Finite 1080" "roundDouble 1185 = Finite 1185"
  "roundDouble (2037 / 2) = Finite (2037 / 2)"
  by code_simp+

lemma roundDouble_tenth: "roundDouble (1 / 10) = Finite (3602879701896397 / 36028797018963968)"
  by code_simp

lemma roundDouble_fifth: "roundDouble (1 / 5) = Finite (3602879701896397 / 18014398509481984)"
  by code_simp

lemma roundDouble_tenth_plus_win:
  "roundDouble (670135624552729805 / 36028797018963968) =
   Finite (2617717283409101 / 140737488355328)"
  by code_simp

lemma roundDouble_tenth_plus_fifth:
  "roundDouble (10808639105689191 / 36028797018963968) =
   Finite (1351079888211149 / 4503599627370496)"
  by code_simp


subsection \<open>The bets table under a run of the queue\<close>

lemma update_present:
  "distinct (map fst al) \<Longrightarrow> map_of al k = Some b \<Longrightarrow>
   AList.update k (f b) al = map (\<lambda>(k', b'). (k', if k' = k then f b' else b')) al"
proof (induction al)
  case Nil
  then show ?case by simp
next
  case (Cons p al)
  obtain k0 b0 where p: "p = (k0, b0)" by (cases p)
  show ?case
  proof (cases "k0 = k")
    case True
    with Cons.prems p have "b0 = b" and "k \<notin> fst ` set al" by auto
    then have "map (\<lambda>(k', b'). (k', if k' = k then f b' else b')) al = al"
      by (intro map_idI) (auto simp: rev_image_eqI)
    with True p \<open>b0 = b\<close> show ?thesis by simp
  next
    case False
    with Cons p show ?thesis by simp
  qed
qed

lemma setStatusAt_absent:
  "k \<notin> fst ` set al \<Longrightarrow> setStatusAt {k} st al = al"
  unfolding setStatusAt_def by (intro map_idI) (auto simp: rev_image_eqI)

lemma setStatusAt_keys [simp]: "map fst (setStatusAt K st al) = map fst al"
  by (simp add: setStatusAt_def case_prod_unfold comp_def)

lemma setStatusAt_twice:
  "setStatusAt K st (setStatusAt K' st al) = setStatusAt (K' \<union> K) st al"
  by (auto simp: setStatusAt_def)

lemma setStatusAt_empty [simp]: "setStatusAt {} st al = al"
  by (simp add: setStatusAt_def)

lemma resolveBet_setStatus_bets:
  assumes "distinct (map fst (bets s))"
  shows "resolveBet_setStatus k st s = s\<lparr>bets := setStatusAt {k} st (bets s)\<rparr>"
proof (cases "map_of (bets s) k")
  case None
  then have "k \<notin> fst ` set (bets s)" by (simp add: map_of_eq_None_iff)
  with None show ?thesis by (simp add: resolveBet_setStatus_def setStatusAt_absent)
next
  case (Some b)
  from update_present [OF assms Some, of "\<lambda>b. b\<lparr>bet_status := st\<rparr>"] Some
  show ?thesis by (simp add: resolveBet_setStatus_def setStatusAt_def)
qed

lemma exec_task_bets:
  assumes "distinct (map fst (bets s))" "exec_task t s = (s', new)"
  shows "(bets s' = bets s \<and> task_bet ` set new = {task_bet t} \<and>
            (\<forall>t' \<in> set new. task_status t' = task_status t)) \<or>
         (bets s' = setStatusAt {task_bet t} (task_status t) (bets s) \<and> new = [])"
  using assms by (cases t) (auto simp: resolveBet_setStatus_bets split: option.splits)

lemma exec_task_other:
  assumes "exec_task t s = (s', new)"
  shows "matches s' = matches s \<and> markets s' = markets s \<and> betSelections s' = betSelections s"
  using assms by (cases t) (auto simp: resolveBet_setStatus_def split: option.splits)

lemma drain_bets:
  "distinct (map fst (bets s)) \<Longrightarrow> \<forall>t \<in> set q. task_status t = st \<Longrightarrow>
   bets (drain q s) = setStatusAt (task_bet ` set q) st (bets s)"
proof (induction q s rule: drain.induct)
  case (1 s)
  then show ?case by simp
next
  case (2 t q s)
  obtain s' new where ex: "exec_task t s = (s', new)" by (cases "exec_task t s")
  from 2 have st: "task_status t = st" by simp
  from exec_task_bets [OF "2.prems"(1) ex]
  show ?case
  proof
    assume a: "bets s' = bets s \<and> task_bet ` set new = {task_bet t} \<and>
            (\<forall>t' \<in> set new. task_status t' = task_status t)"
    with "2.prems" st have "bets (drain (q @ new) s') = setStatusAt (task_bet ` set (q @ new)) st (bets s')"
      by (intro "2.IH" [OF ex [symmetric]]) auto
    moreover from a have "task_bet ` set (q @ new) = task_bet ` set (t # q)" by auto
    ultimately show ?thesis using a ex by simp
  next
    assume b: "bets s' = setStatusAt {task_bet t} (task_status t) (bets s) \<and> new = []"
    with "2.prems" st have "bets (drain (q @ new) s') = setStatusAt (task_bet ` set (q @ new)) st (bets s')"
      by (intro "2.IH" [OF ex [symmetric]]) auto
    moreover have "task_bet ` set (t # q) = {task_bet t} \<union> task_bet ` set q" by simp
    ultimately show ?thesis using b ex st by (simp add: setStatusAt_twice del: image_insert)
  qed
qed

lemma drain_other:
  "matches (drain q s) = matches s \<and> markets (drain q s) = markets s \<and>
   betSelections (drain q s) = betSelections s"
proof (induction q s rule: drain.induct)
  case (1 s)
  then show ?case by simp
next
  case (2 t q s)
  obtain s' new where ex: "exec_task t s = (s', new)" by (cases "exec_task t s")
  from "2.IH" [OF ex [symmetric]] exec_task_other [OF ex] ex show ?case by simp
qed

lemma selectionsLoop_fst:
  "fst (selectionsLoop mkts matchId match h a sels (True, p)) =
     (\<forall>market \<in> set (filter (\<lambda>market. market_matchId market = matchId)
                        (List.map_filter (\<lambda>selection. map_of mkts (selection_marketId selection)) sels)).
        isBetWinner (market_type market) h a (Some (orZero (match_htHomeScore match)))
          (Some (orZero (match_htAwayScore match))) \<or>
        isBetPush (market_type market) h a)"
  by (induction sels arbitrary: p) (auto simp: Let_def split: option.splits)

lemma selectionsLoop_snd:
  "fst (selectionsLoop mkts matchId match h a sels (True, p)) \<Longrightarrow>
   snd (selectionsLoop mkts matchId match h a sels (True, p)) =
     (p \<or> (\<exists>market \<in> set (filter (\<lambda>market. market_matchId market = matchId)
                        (List.map_filter (\<lambda>selection. map_of mkts (selection_marketId selection)) sels)).
        isBetPush (market_type market) h a))"
  by (induction sels arbitrary: p) (auto simp: Let_def split: option.splits if_splits)

lemma selectionsLoop_status:
  assumes "selectionsLoop (markets s) matchId match h a
           (filter (\<lambda>selection. selection_betId selection = bet_id bet) (map snd (betSelections s)))
           (True, False) = (allSelectionsWon, hasAnyPush)"
  shows "(if allSelectionsWon then (if hasAnyPush then ''PUSH'' else ''WON'') else ''LOST'') =
         betOutcome s matchId match h a bet"
proof (cases allSelectionsWon)
  case True
  with assms selectionsLoop_snd [of "markets s" matchId match h a
      "filter (\<lambda>selection. selection_betId selection = bet_id bet) (map snd (betSelections s))" False]
    selectionsLoop_fst [of "markets s" matchId match h a
      "filter (\<lambda>selection. selection_betId selection = bet_id bet) (map snd (betSelections s))" False]
  show ?thesis
    unfolding betOutcome_def aggregateStatus_def relevantMarkets_def by auto
next
  case False
  with assms selectionsLoop_fst [of "markets s" matchId match h a
      "filter (\<lambda>selection. selection_betId selection = bet_id bet) (map snd (betSelections s))" False]
  show ?thesis
    unfolding betOutcome_def aggregateStatus_def relevantMarkets_def by auto
qed

lemma betsLoop_step:
  "betsLoop matchId match h a (bet # rest) (s, q) =
    (if bet_status bet = ''PENDING'' then
       (case resolveBet_start (bet_id bet) (betOutcome s matchId match h a bet) s of
          (s', new) \<Rightarrow> betsLoop matchId match h a rest (s', q @ new))
     else betsLoop matchId match h a rest (s, q))"
proof -
  obtain allSelectionsWon hasAnyPush where
    r: "selectionsLoop (markets s) matchId match h a
           (filter (\<lambda>selection. selection_betId selection = bet_id bet) (map snd (betSelections s)))
           (True, False) = (allSelectionsWon, hasAnyPush)"
    by (cases "selectionsLoop (markets s) matchId match h a
           (filter (\<lambda>selection. selection_betId selection = bet_id bet) (map snd (betSelections s)))
           (True, False)")
  from selectionsLoop_status [OF r] r show ?thesis by simp
qed

lemma update_append_absent:
  "k \<notin> fst ` set pre \<Longrightarrow> AList.update k v (pre @ (k, b) # suf) = pre @ (k, v) # suf"
  by (induction pre) auto

lemma map_of_append_absent:
  "k \<notin> fst ` set pre \<Longrightarrow> map_of (pre @ (k, b) # suf) k = Some b"
  by (induction pre) auto

lemma betOutcome_bets [simp]:
  "betOutcome (s\<lparr>bets := x\<rparr>) matchId match h a bet = betOutcome s matchId match h a bet"
  by (simp add: betOutcome_def relevantMarkets_def)

lemma wonTask_bets [simp]: "wonTask (s\<lparr>bets := x\<rparr>) bet = wonTask s bet"
  by (simp add: wonTask_def)

lemma betsLoop_closed:
  assumes "distinct (map fst (pre @ suf))" "\<forall>(k, b) \<in> set suf. bet_id b = k"
  shows "betsLoop matchId match h a (map snd suf) (s\<lparr>bets := pre @ suf\<rparr>, q) =
     (s\<lparr>bets := pre @ map (\<lambda>(k, b). (k, if bet_status b = ''PENDING'' \<and> betOutcome s matchId match h a b \<noteq> ''WON''
                                       then b\<lparr>bet_status := betOutcome s matchId match h a b\<rparr> else b)) suf\<rparr>,
      q @ map (wonTask s) (filter (\<lambda>b. bet_status b = ''PENDING'' \<and> betOutcome s matchId match h a b = ''WON'')
                            (map snd suf)))"
  using assms
proof (induction suf arbitrary: pre q)
  case Nil
  then show ?case by simp
next
  case (Cons p suf)
  obtain k b where p: "p = (k, b)" by (cases p)
  from Cons.prems p have kb: "bet_id b = k" and absent: "k \<notin> fst ` set pre" by auto
  let ?st = "betOutcome s matchId match h a b"
  show ?case
  proof (cases "bet_status b = ''PENDING''")
    case False
    from Cons.prems p have "distinct (map fst ((pre @ [(k, b)]) @ suf))" "\<forall>(k, b) \<in> set suf. bet_id b = k"
      by auto
    from Cons.IH [OF this, of q] False p show ?thesis
      by (simp add: betsLoop_step del: betsLoop.simps(2) map_of_append)
  next
    case True
    show ?thesis
    proof (cases "?st = ''WON''")
      case won: True
      from Cons.prems p have "distinct (map fst ((pre @ [(k, b)]) @ suf))" "\<forall>(k, b) \<in> set suf. bet_id b = k"
        by auto
      from Cons.IH [OF this, of "q @ [wonTask s b]"] True won p kb absent
      show ?thesis
        by (simp add: betsLoop_step resolveBet_start_def map_of_append_absent getUser_def wonTask_def
              del: betsLoop.simps(2) map_of_append)
    next
      case notwon: False
      from Cons.prems p have "distinct (map fst ((pre @ [(k, b\<lparr>bet_status := ?st\<rparr>)]) @ suf))"
        "\<forall>(k, b) \<in> set suf. bet_id b = k"
        by auto
      from Cons.IH [OF this, of q] True notwon p kb absent
      show ?thesis
        by (simp add: betsLoop_step resolveBet_start_def resolveBet_setStatus_def
              map_of_append_absent update_append_absent del: betsLoop.simps(2) map_of_append)
    qed
  qed
qed

lemma resolveBetsForMatch_start_finished:
  "finishedWith s matchId match h a \<Longrightarrow>
   resolveBetsForMatch_start matchId s = betsLoop matchId match h a (map snd (bets s)) (s, [])"
  by (simp add: finishedWith_def resolveBetsForMatch_start_def)

lemma resolveBetsForMatch_start_closed:
  assumes "keyed_by_id s" "finishedWith s matchId match h a"
  shows "resolveBetsForMatch_start matchId s =
     (s\<lparr>bets := map (\<lambda>(k, b). (k, if bet_status b = ''PENDING'' \<and> betOutcome s matchId match h a b \<noteq> ''WON''
                                       then b\<lparr>bet_status := betOutcome s matchId match h a b\<rparr> else b)) (bets s)\<rparr>,
      map (wonTask s) (filter (\<lambda>b. bet_status b = ''PENDING'' \<and> betOutcome s matchId match h a b = ''WON'')
                            (map snd (bets s))))"
proof -
  from assms(1) have "distinct (map fst ([] @ bets s))" "\<forall>(k, b) \<in> set (bets s). bet_id b = k"
    by (simp_all add: keyed_by_id_def)
  from betsLoop_closed [OF this, of matchId match h a s "[]"]
  show ?thesis by (simp add: resolveBetsForMatch_start_finished [OF assms(2)])
qed

lemma wonTask_fields [simp]: "task_bet (wonTask s b) = bet_id b" "task_status (wonTask s b) = ''WON''"
  "task_user (wonTask s b) = map_option user_id (map_of (users s) (bet_userId b))"
  by (simp_all add: wonTask_def)

lemma resolveBetsForMatch_bets:
  assumes "keyed_by_id s" "finishedWith s matchId match h a"
  shows "bets (resolveBetsForMatch matchId s) = map (settleRow s matchId match h a) (bets s)"
proof -
  let ?W = "\<lambda>b. bet_status b = ''PENDING'' \<and> betOutcome s matchId match h a b = ''WON''"
  let ?f1 = "\<lambda>(k, b). (k, if bet_status b = ''PENDING'' \<and> betOutcome s matchId match h a b \<noteq> ''WON''
                                       then b\<lparr>bet_status := betOutcome s matchId match h a b\<rparr> else b)"
  let ?q = "map (wonTask s) (filter ?W (map snd (bets s)))"
  from assms(1) have d: "distinct (map fst (bets s))" and kid: "\<forall>(k, b) \<in> set (bets s). bet_id b = k"
    by (simp_all add: keyed_by_id_def)
  have d1: "distinct (map fst (bets (s\<lparr>bets := map ?f1 (bets s)\<rparr>)))"
    using d by (simp add: case_prod_unfold comp_def)
  have "bets (resolveBetsForMatch matchId s) =
        setStatusAt (task_bet ` set ?q) ''WON'' (map ?f1 (bets s))"
    unfolding resolveBetsForMatch_def resolveBetsForMatch_start_closed [OF assms]
    using drain_bets [OF d1, of ?q "''WON''"] by simp
  also have "\<dots> = map (settleRow s matchId match h a) (bets s)"
    unfolding setStatusAt_def map_map
  proof (rule map_cong [OF refl])
    fix row assume row: "row \<in> set (bets s)"
    obtain k b where kb: "row = (k, b)" by (cases row)
    have "k \<in> task_bet ` set ?q \<longleftrightarrow> ?W b"
    proof
      assume "k \<in> task_bet ` set ?q"
      then obtain k' b' where b': "(k', b') \<in> set (bets s)" "?W b'" "bet_id b' = k" by auto
      with kid have "k' = k" by auto
      with b' row kb d have "b' = b" by (metis eq_key_imp_eq_value)
      with b' show "?W b" by simp
    next
      assume "?W b"
      moreover from row kb kid have "bet_id b = k" by auto
      ultimately show "k \<in> task_bet ` set ?q" using row kb by force
    qed
    then show "((\<lambda>(k, b). (k, if k \<in> task_bet ` set ?q then b\<lparr>bet_status := ''WON''\<rparr> else b)) \<circ> ?f1) row =
               settleRow s matchId match h a row"
      using kb by (auto simp: settleRow_def)
  qed
  finally show ?thesis .
qed

lemma aggregateStatus_not_pending: "aggregateStatus mks h a hh ha \<noteq> ''PENDING''"
  by (simp add: aggregateStatus_def)

lemma betsLoop_no_pending:
  "\<forall>b \<in> set bs. bet_status b \<noteq> ''PENDING'' \<Longrightarrow> betsLoop matchId match h a bs st = st"
  by (induction bs) (auto simp: prod_eq_iff intro: prod.exhaust [of st])

lemma resolveBetsForMatch_no_pending:
  assumes "\<forall>(k, b) \<in> set (bets s). bet_status b \<noteq> ''PENDING''"
  shows "resolveBetsForMatch matchId s = s"
proof -
  from assms have "\<forall>b \<in> set (map snd (bets s)). bet_status b \<noteq> ''PENDING''" by auto
  then have "\<And>match h a. betsLoop matchId match h a (map snd (bets s)) (s, []) = (s, [])"
    by (rule betsLoop_no_pending)
  then show ?thesis
    by (simp add: resolveBetsForMatch_def resolveBetsForMatch_start_def split: option.splits)
qed

lemma resolveBetsForMatch_not_finished:
  assumes "\<not> (\<exists>match h a. finishedWith s matchId match h a)"
  shows "resolveBetsForMatch matchId s = s"
  using assms
  by (auto simp: finishedWith_def resolveBetsForMatch_def resolveBetsForMatch_start_def
        split: option.splits)

lemma resolveBetsForMatch_row:
  assumes "keyed_by_id s" "finishedWith s matchId match h a" "(k, bet) \<in> set (bets s)"
  shows "map_of (bets (resolveBetsForMatch matchId s)) k = Some (snd (settleRow s matchId match h a (k, bet)))"
proof -
  from assms(1) have d: "distinct (map fst (bets s))" by (simp add: keyed_by_id_def)
  have keys: "map fst (map (settleRow s matchId match h a) (bets s)) = map fst (bets s)"
    by (simp add: settleRow_def comp_def)
  from assms(3) have "settleRow s matchId match h a (k, bet) \<in> set (map (settleRow s matchId match h a) (bets s))"
    by simp
  moreover have "fst (settleRow s matchId match h a (k, bet)) = k" by (simp add: settleRow_def)
  ultimately have mem: "(k, snd (settleRow s matchId match h a (k, bet))) \<in> set (map (settleRow s matchId match h a) (bets s))"
    by (metis prod.collapse)
  from d have d': "distinct (map fst (map (settleRow s matchId match h a) (bets s)))"
    by (simp only: keys)
  from d' mem show ?thesis
    unfolding resolveBetsForMatch_bets [OF assms(1,2)] by (rule map_of_is_SomeI)
qed

lemmas example_defs =
  demoUser_def secondUser_def derby_def homeWin_def awayWin_def singleBet_def rivalBet_def
  openShop_def cupFinal_def replay_def cupBet_def cupMarket_def cupSelection_def cupDay_def
  twoUnrelated_def hedgeBet_def hedgedShop_def secondBet_def busyShop_def centUser_def
  centBet_def centShop_def pennyUser_def pennyShop_def

lemma keyed_examples: "keyed_by_id openShop" "keyed_by_id cupDay" "keyed_by_id twoUnrelated"
  "keyed_by_id hedgedShop" "keyed_by_id busyShop" "keyed_by_id centShop"
  "keyed_by_id pennyShop"
  by (simp_all add: keyed_by_id_def example_defs)

lemma resolveBet_won:
  assumes "map_of (bets s) betId = Some bet" "map_of (users s) (bet_userId bet) = Some u"
    "user_id u = bet_userId bet"
  shows "resolveBet betId ''WON'' s =
     s\<lparr>users := AList.update (bet_userId bet)
                  (u\<lparr>user_balance := jsAdd (user_balance u) (bet_potentialWin bet)\<rparr>) (users s),
       bets := AList.update betId (bet\<lparr>bet_status := ''WON''\<rparr>) (bets s)\<rparr>"
  using assms
  by (simp add: resolveBet_def resolveBet_start_def getUser_def resolveBet_setStatus_def)

lemma resolveBet_not_won:
  assumes "map_of (bets s) betId = Some bet" "status \<noteq> ''WON''"
  shows "resolveBet betId status s =
     s\<lparr>bets := AList.update betId (bet\<lparr>bet_status := status\<rparr>) (bets s)\<rparr>"
  using assms
  by (simp add: resolveBet_def resolveBet_start_def resolveBet_setStatus_def)

lemma resolveBet_status:
  assumes "map_of (bets s) betId = Some bet"
  shows "map_of (bets (resolveBet betId status s)) betId = Some (bet\<lparr>bet_status := status\<rparr>)"
  using assms
  by (auto simp add: resolveBet_def resolveBet_start_def getUser_def resolveBet_setStatus_def
        update_conv' split: option.splits)

subsection \<open>The users table under a run of the queue\<close>

lemma exec_task_users_other:
  assumes "task_user t \<noteq> Some u" "exec_task t s = (s', new)"
  shows "map_of (users s') u = map_of (users s) u \<and> (\<forall>t' \<in> set new. task_user t' \<noteq> Some u)"
  using assms
  by (cases t) (auto simp: resolveBet_setStatus_def update_conv' split: option.splits)

lemma drain_users_other:
  "\<forall>t \<in> set q. task_user t \<noteq> Some u \<Longrightarrow> map_of (users (drain q s)) u = map_of (users s) u"
proof (induction q s rule: drain.induct)
  case (1 s)
  then show ?case by simp
next
  case (2 t q s)
  obtain s' new where ex: "exec_task t s = (s', new)" by (cases "exec_task t s")
  from "2.prems" have "task_user t \<noteq> Some u" by simp
  from exec_task_users_other [OF this ex] "2.prems"
  have "map_of (users s') u = map_of (users s) u" "\<forall>t \<in> set (q @ new). task_user t \<noteq> Some u"
    by auto
  with "2.IH" [OF ex [symmetric]] ex show ?case by simp
qed

lemma drain_users_update:
  assumes "\<forall>t \<in> set q1. task_user t \<noteq> Some u" "\<forall>t \<in> set q2. task_user t \<noteq> Some u"
  shows "map_of (users (drain (q1 @ UpdateUserBalance_gotUser u bal (Some usr) k st # q2) s)) u =
         Some (usr\<lparr>user_balance := bal\<rparr>)"
  using assms
proof (induction q1 arbitrary: q2 s)
  case Nil
  then have "\<forall>t \<in> set (q2 @ [ResolveBet_balanceUpdated k st]). task_user t \<noteq> Some u" by simp
  from drain_users_other [OF this] show ?case by (simp add: update_conv')
next
  case (Cons t q1)
  obtain s' new where ex: "exec_task t s = (s', new)" by (cases "exec_task t s")
  from Cons.prems have "task_user t \<noteq> Some u" by simp
  from exec_task_users_other [OF this ex] Cons.prems
  have "\<forall>t \<in> set q1. task_user t \<noteq> Some u" "\<forall>t \<in> set (q2 @ new). task_user t \<noteq> Some u"
    by auto
  from Cons.IH [OF this, of s'] ex show ?case by simp
qed

lemma drain_users_won:
  assumes "\<forall>t \<in> set q1. task_user t \<noteq> Some u" "\<forall>t \<in> set q2. task_user t \<noteq> Some u"
    and "user_id usr = u" "map_of (users s) u = Some usr'"
  shows "map_of (users (drain (q1 @ ResolveBet_gotUser k st bet (Some usr) # q2) s)) u =
         Some (usr'\<lparr>user_balance := jsAdd (user_balance usr) (bet_potentialWin bet)\<rparr>)"
  using assms
proof (induction q1 arbitrary: q2 s)
  case Nil
  from drain_users_update [OF Nil.prems(2), of "[]" "jsAdd (user_balance usr) (bet_potentialWin bet)" usr' k st s]
    Nil.prems(3,4)
  show ?case by (simp add: getUser_def)
next
  case (Cons t q1)
  obtain s' new where ex: "exec_task t s = (s', new)" by (cases "exec_task t s")
  from Cons.prems have "task_user t \<noteq> Some u" by simp
  from exec_task_users_other [OF this ex] Cons.prems
  have "\<forall>t \<in> set q1. task_user t \<noteq> Some u" "\<forall>t \<in> set (q2 @ new). task_user t \<noteq> Some u"
    "map_of (users s') u = Some usr'"
    by auto
  from Cons.IH [OF this(1,2) Cons.prems(3) this(3)] ex show ?case by simp
qed

lemma resolveBetsForMatch_credit:
  assumes keyed: "keyed_by_id s" and fin: "finishedWith s matchId match h a"
    and row: "(k, bet) \<in> set (bets s)" and pending: "bet_status bet = ''PENDING''"
    and won: "betOutcome s matchId match h a bet = ''WON''"
    and owner: "map_of (users s) (bet_userId bet) = Some owner"
    and only: "\<forall>(k', bet') \<in> set (bets s).
        bet_status bet' = ''PENDING'' \<and> betOutcome s matchId match h a bet' = ''WON'' \<and>
        bet_userId bet' = bet_userId bet \<longrightarrow> k' = k"
  shows "map_of (users (resolveBetsForMatch matchId s)) (bet_userId bet) =
         Some (owner\<lparr>user_balance := jsAdd (user_balance owner) (bet_potentialWin bet)\<rparr>)"
proof -
  let ?W = "\<lambda>b. bet_status b = ''PENDING'' \<and> betOutcome s matchId match h a b = ''WON''"
  let ?u = "bet_userId bet"
  from keyed have d: "distinct (map fst (bets s))"
    and uid: "\<forall>(k, u) \<in> set (users s). user_id u = k"
    by (simp_all add: keyed_by_id_def)
  from row obtain pre suf where split: "bets s = pre @ (k, bet) # suf"
    by (auto simp: in_set_conv_decomp)
  with d have kpre: "k \<notin> fst ` set pre" and ksuf: "k \<notin> fst ` set suf" by auto
  have other: "task_user (wonTask s b') \<noteq> Some ?u"
    if "(k', b') \<in> set pre \<union> set suf" "?W b'" for k' b'
  proof
    assume "task_user (wonTask s b') = Some ?u"
    then obtain usr where usr: "map_of (users s) (bet_userId b') = Some usr" "user_id usr = ?u"
      by auto
    from usr(1) have "(bet_userId b', usr) \<in> set (users s)" by (rule map_of_SomeD)
    with uid usr(2) have "bet_userId b' = ?u" by auto
    moreover from that split have "(k', b') \<in> set (bets s)" by auto
    ultimately have "k' = k" using only that(2) by auto
    with that(1) kpre ksuf show False by (auto simp: rev_image_eqI)
  qed
  have q1: "\<forall>t \<in> set (map (wonTask s) (filter ?W (map snd pre))). task_user t \<noteq> Some ?u"
    using other by fastforce
  have q2: "\<forall>t \<in> set (map (wonTask s) (filter ?W (map snd suf))). task_user t \<noteq> Some ?u"
    using other by fastforce
  from owner have "(?u, owner) \<in> set (users s)" by (rule map_of_SomeD)
  with uid have oid: "user_id owner = ?u" by auto
  have q: "map (wonTask s) (filter ?W (map snd (bets s))) =
      map (wonTask s) (filter ?W (map snd pre)) @
      ResolveBet_gotUser (bet_id bet) ''WON'' bet (Some owner) #
      map (wonTask s) (filter ?W (map snd suf))"
    using split pending won owner by (simp add: wonTask_def)
  show ?thesis
    unfolding resolveBetsForMatch_def resolveBetsForMatch_start_closed [OF keyed fin] q
    using drain_users_won [OF q1 q2 oid, of _ owner] owner by simp
qed

lemma find_keyed:
  "distinct (map fst al) \<Longrightarrow> \<forall>(k, m) \<in> set al. match_id m = k \<Longrightarrow>
   find (\<lambda>match. match_id match = matchId) (map snd al) = map_of al matchId"
proof (induction al)
  case Nil
  then show ?case by simp
next
  case (Cons p al)
  obtain k m where p: "p = (k, m)" by (cases p)
  with Cons show ?case by auto
qed

lemma set_update_subset: "set (AList.update k v al) \<subseteq> insert (k, v) (set al)"
  by (induction al) auto

lemma keyed_by_id_matches_update:
  assumes "keyed_by_id s" "match_id m = k"
  shows "keyed_by_id (s\<lparr>matches := AList.update k m (matches s)\<rparr>)"
proof -
  from assms(1) have "distinct (map fst (AList.update k m (matches s)))"
    by (simp add: keyed_by_id_def distinct_update)
  moreover have "\<forall>(k', m') \<in> set (AList.update k m (matches s)). match_id m' = k'"
    using set_update_subset [of k m "matches s"] assms by (auto simp: keyed_by_id_def)
  ultimately show ?thesis using assms(1) by (simp add: keyed_by_id_def)
qed

lemma relevantMarkets_matches [simp]:
  "relevantMarkets (s\<lparr>matches := x\<rparr>) matchId bet = relevantMarkets s matchId bet"
  by (simp add: relevantMarkets_def)

lemma betOutcome_matches [simp]:
  "betOutcome (s\<lparr>matches := x\<rparr>) matchId match h a bet = betOutcome s matchId match h a bet"
  by (simp add: betOutcome_def)

text \<open>
  What a settlement pass does to a PENDING bet that has no selection on the finished
  match: no bet stays PENDING, this one becomes WON, and its potential win reaches the
  balance of its owner if no other bet of the same owner wins in the same pass.
\<close>

lemma resolveBetsForMatch_unrelated_won:
  assumes keyed: "keyed_by_id s" and fin: "finishedWith s matchId match h a"
    and row: "(k, bet) \<in> set (bets s)" and pending: "bet_status bet = ''PENDING''"
    and unrelated: "relevantMarkets s matchId bet = []"
  shows "(\<forall>(k', bet') \<in> set (bets (resolveBetsForMatch matchId s)). bet_status bet' \<noteq> ''PENDING'') \<and>
         map_of (bets (resolveBetsForMatch matchId s)) k = Some (bet\<lparr>bet_status := ''WON''\<rparr>) \<and>
         (\<forall>owner. map_of (users s) (bet_userId bet) = Some owner \<and>
            (\<forall>(k', bet') \<in> set (bets s).
               bet_status bet' = ''PENDING'' \<and> betOutcome s matchId match h a bet' = ''WON'' \<and>
               bet_userId bet' = bet_userId bet \<longrightarrow> k' = k) \<longrightarrow>
            map_of (users (resolveBetsForMatch matchId s)) (bet_userId bet) =
              Some (owner\<lparr>user_balance := jsAdd (user_balance owner) (bet_potentialWin bet)\<rparr>))"
proof -
  have out: "betOutcome s matchId match h a bet = ''WON''"
    by (simp add: betOutcome_def unrelated aggregateStatus_def)
  have "\<forall>(k', bet') \<in> set (bets (resolveBetsForMatch matchId s)). bet_status bet' \<noteq> ''PENDING''"
    unfolding resolveBetsForMatch_bets [OF keyed fin]
    by (auto simp: settleRow_def betOutcome_def aggregateStatus_not_pending)
  moreover from resolveBetsForMatch_row [OF keyed fin row] pending out
  have "map_of (bets (resolveBetsForMatch matchId s)) k = Some (bet\<lparr>bet_status := ''WON''\<rparr>)"
    by (simp add: settleRow_def)
  ultimately show ?thesis
    using resolveBetsForMatch_credit [OF keyed fin row pending out] by blast
qed

section \<open>The claims\<close>

subsection \<open>The evaluator\<close>

text \<open>
  C1. For every market type and all scores, \<open>isBetWinner\<close> returns what the row of the
  rule table for that market type says, and \<open>False\<close> for a market type that has no
  row. This holds for the copy in the storage module and for the copy of the client,
  and for all integers, negative ones included.
\<close>

theorem isBetWinner_ruleTable:
  "isBetWinner marketType home away (Some htHome) (Some htAway) =
     (case map_of ruleTable marketType of
        Some winCondition \<Rightarrow> winCondition home away htHome htAway
      | None \<Rightarrow> False) \<and>
   isBetWinner_client marketType home away (Some htHome) (Some htAway) =
     (case map_of ruleTable marketType of
        Some winCondition \<Rightarrow> winCondition home away htHome htAway
      | None \<Rightarrow> False)"
  by (simp add: isBetWinner_def isBetWinner_client_def ruleTable_def Let_def)

theorem isBetWinner_ruleTable_witness:
  "isBetWinner ''OVER_2_5'' 2 1 (Some 1) (Some 0) \<and>
   isBetWinner ''DC_1X'' 2 2 (Some 0) (Some 1) \<and>
   \<not> isBetWinner ''HANDICAP_1_MINUS_1'' 2 1 (Some 0) (Some 0) \<and>
   \<not> isBetWinner ''WIN_BOTH_HALVES_1'' 2 1 (Some 1) (Some 0) \<and>
   \<not> isBetWinner_client ''FOOBAR'' 3 1 (Some 1) (Some 0)"
  using isBetWinner_ruleTable [of "''OVER_2_5''" 2 1 1 0]
    isBetWinner_ruleTable [of "''DC_1X''" 2 2 0 1]
    isBetWinner_ruleTable [of "''HANDICAP_1_MINUS_1''" 2 1 0 0]
    isBetWinner_ruleTable [of "''WIN_BOTH_HALVES_1''" 2 1 1 0]
    isBetWinner_ruleTable [of "''FOOBAR''" 3 1 1 0]
  by (simp add: ruleTable_def)

text \<open>
  C5. \<open>isBetPush\<close> is true exactly for the market types \<open>DNB_1\<close> and \<open>DNB_2\<close> at equal
  scores, in the storage module and in the client.
\<close>

theorem isBetPush_iff:
  "isBetPush marketType home away =
     ((marketType = ''DNB_1'' \<or> marketType = ''DNB_2'') \<and> home = away) \<and>
   isBetPush_client marketType home away =
     ((marketType = ''DNB_1'' \<or> marketType = ''DNB_2'') \<and> home = away)"
  by (simp add: isBetPush_def isBetPush_client_def)

theorem isBetPush_iff_witness:
  "isBetPush ''DNB_1'' 1 1 \<and> isBetPush_client ''DNB_2'' 0 0 \<and> \<not> isBetPush ''DNB_2'' 2 1 \<and>
   \<not> isBetPush ''X'' 1 1 \<and> \<not> isBetPush ''DC_1X'' 1 1 \<and>
   \<not> isBetPush ''HANDICAP_1_MINUS_1'' 2 1"
  using isBetPush_iff [of "''DNB_1''" 1 1] isBetPush_iff [of "''DNB_2''" 0 0]
    isBetPush_iff [of "''DNB_2''" 2 1] isBetPush_iff [of "''X''" 1 1]
    isBetPush_iff [of "''DC_1X''" 1 1] isBetPush_iff [of "''HANDICAP_1_MINUS_1''" 2 1]
  by simp

text \<open>
  C8. The two copies of the evaluator agree on every input, the half-time arguments
  left out (\<open>None\<close>) included.
\<close>

theorem evaluator_copies_agree:
  "isBetWinner marketType homeScore awayScore htHomeScore htAwayScore =
     isBetWinner_client marketType homeScore awayScore htHomeScore htAwayScore \<and>
   isBetPush marketType homeScore awayScore = isBetPush_client marketType homeScore awayScore"
  by (simp add: isBetWinner_def isBetWinner_client_def isBetPush_def isBetPush_client_def Let_def)

theorem evaluator_copies_agree_witness:
  "isBetWinner ''WIN_EITHER_HALF_2'' 1 2 (Some 1) None =
     isBetWinner_client ''WIN_EITHER_HALF_2'' 1 2 (Some 1) None \<and>
   isBetPush ''DNB_1'' 1 1 = isBetPush_client ''DNB_1'' 1 1"
  using evaluator_copies_agree [of "''WIN_EITHER_HALF_2''" 1 2 "Some 1" None]
    evaluator_copies_agree [of "''DNB_1''" 1 1 None None]
  by simp

subsection \<open>Paying out one bet\<close>

text \<open>
  C3, as the code has it. For an existing bet whose owner exists,
  \<open>resolveBet(betId, "WON")\<close> sets the status of the bet to WON and stores as the balance
  of the owner the sum \<open>user.balance + bet.potentialWin\<close> that JavaScript computes: the
  exact sum rounded to the nearest double, hence the exact sum whenever that is a double
  itself. Nothing else changes. With PUSH or LOST it sets the status and leaves the
  users table as it was.
\<close>

theorem resolveBet_payout:
  assumes "keyed_by_id s" and "map_of (bets s) betId = Some bet"
    and "map_of (users s) (bet_userId bet) = Some owner"
  shows "resolveBet betId ''WON'' s =
           s\<lparr>users := AList.update (bet_userId bet)
                        (owner\<lparr>user_balance := jsAdd (user_balance owner) (bet_potentialWin bet)\<rparr>)
                        (users s),
             bets := AList.update betId (bet\<lparr>bet_status := ''WON''\<rparr>) (bets s)\<rparr> \<and>
         (\<forall>a b. user_balance owner = Finite a \<and> bet_potentialWin bet = Finite b \<longrightarrow>
            jsAdd (user_balance owner) (bet_potentialWin bet) = roundDouble (a + b) \<and>
            (roundDouble (a + b) = Finite (a + b) \<longrightarrow>
               jsAdd (user_balance owner) (bet_potentialWin bet) = Finite (a + b))) \<and>
         (\<forall>status \<in> {''PUSH'', ''LOST''}.
            resolveBet betId status s =
              s\<lparr>bets := AList.update betId (bet\<lparr>bet_status := status\<rparr>) (bets s)\<rparr>)"
proof -
  from assms(3) have "(bet_userId bet, owner) \<in> set (users s)" by (rule map_of_SomeD)
  with assms(1) have "user_id owner = bet_userId bet" by (auto simp: keyed_by_id_def)
  from resolveBet_won [OF assms(2,3) this] resolveBet_not_won [OF assms(2)]
  show ?thesis by simp
qed

theorem resolveBet_payout_witness:
  "map_of (users (resolveBet 1 ''WON'' cupDay)) 1 =
     Some (demoUser\<lparr>user_balance := Finite 1080\<rparr>) \<and>
   map_of (bets (resolveBet 1 ''WON'' cupDay)) 1 = Some (cupBet 1 1 80 ''WON'') \<and>
   users (resolveBet 1 ''PUSH'' cupDay) = users cupDay \<and>
   map_of (bets (resolveBet 1 ''LOST'' cupDay)) 1 = Some (cupBet 1 1 80 ''LOST'')"
proof -
  have b: "map_of (bets cupDay) 1 = Some (cupBet 1 1 80 ''PENDING'')"
    by (simp add: cupDay_def)
  have u: "map_of (users cupDay) (bet_userId (cupBet 1 1 80 ''PENDING'')) = Some demoUser"
    by (simp add: cupDay_def cupBet_def)
  from resolveBet_payout [OF keyed_examples(2) b u] show ?thesis
    by (simp add: cupDay_def cupBet_def demoUser_def roundDouble_examples)
qed

text \<open>
  C3, as the claim states it, fails: the balance does not always rise by exactly the
  potential win. With the balance that JavaScript reads from \<open>0.1\<close> and the potential
  win it reads from \<open>0.2\<close>, the balance stored is the double \<open>0.30000000000000004\<close>, and
  the difference to the balance before is not the potential win.
\<close>

theorem resolveBet_exact_counterexample:
  "keyed_by_id centShop \<and>
   map_of (bets centShop) 1 = Some centBet \<and>
   map_of (users centShop) (bet_userId centBet) = Some centUser \<and>
   user_balance centUser = Finite (3602879701896397 / 36028797018963968) \<and>
   bet_potentialWin centBet = Finite (3602879701896397 / 18014398509481984) \<and>
   map_of (users (resolveBet 1 ''WON'' centShop)) 1 =
     Some (centUser\<lparr>user_balance := Finite (5404319552844596 / 18014398509481984)\<rparr>) \<and>
   (5404319552844596 / 18014398509481984 - 3602879701896397 / 36028797018963968 :: rat) \<noteq>
     3602879701896397 / 18014398509481984"
proof -
  have "resolveBet 1 ''WON'' centShop =
     centShop\<lparr>users := [(1, centUser\<lparr>user_balance := Finite (5404319552844596 / 18014398509481984)\<rparr>)],
              bets := [(1, centBet\<lparr>bet_status := ''WON''\<rparr>)]\<rparr>"
    by (simp add: resolveBet_def resolveBet_start_def getUser_def resolveBet_setStatus_def
          centShop_def centUser_def centBet_def roundDouble_tenth roundDouble_fifth
          roundDouble_tenth_plus_fifth)
  then show ?thesis
    using keyed_examples(6)
    by (simp add: centShop_def centUser_def centBet_def roundDouble_tenth roundDouble_fifth)
qed

text \<open>
  C4, as the code has it. \<open>resolveBet\<close> does not look at the status a bet has: for every
  existing bet, settled or not, it leaves the bet with the new status (and a WON is
  paid out again, by the code that C3 describes). On a settled bet it is a no-op when the new status is not WON
  and is the status the bet has already. The guard on PENDING is in
  \<open>resolveBetsForMatch\<close>, the caller.
\<close>

theorem resolveBet_any_status:
  assumes "map_of (bets s) betId = Some bet"
  shows "map_of (bets (resolveBet betId status s)) betId = Some (bet\<lparr>bet_status := status\<rparr>) \<and>
         (status \<noteq> ''WON'' \<and> bet_status bet = status \<longrightarrow> resolveBet betId status s = s)"
proof -
  have "resolveBet betId status s = s" if "status \<noteq> ''WON''" "bet_status bet = status"
    using resolveBet_not_won [OF assms that(1)] that(2) assms by (simp add: update_triv)
  with resolveBet_status [OF assms] show ?thesis by simp
qed

theorem resolveBet_any_status_witness:
  "map_of (bets (resolveBet 4 ''PUSH'' cupDay)) 4 = Some (cupBet 4 1 20 ''PUSH'') \<and>
   resolveBet 4 ''LOST'' cupDay = cupDay"
proof -
  have b: "map_of (bets cupDay) 4 = Some (cupBet 4 1 20 ''LOST'')"
    by (simp add: cupDay_def)
  from resolveBet_any_status [OF b, of "''PUSH''"] resolveBet_any_status [OF b, of "''LOST''"]
  show ?thesis by (simp add: cupBet_def)
qed

text \<open>
  C4, as the claim states it, fails: bet 4 of the cup day is LOST, and resolving it as
  WON makes it WON and pays its owner 20.
\<close>

theorem resolveBet_settled_counterexample:
  "map_of (bets cupDay) 4 = Some (cupBet 4 1 20 ''LOST'') \<and>
   map_of (bets (resolveBet 4 ''WON'' cupDay)) 4 = Some (cupBet 4 1 20 ''WON'') \<and>
   map_of (users cupDay) 1 = Some (demoUser\<lparr>user_balance := Finite 1000\<rparr>) \<and>
   map_of (users (resolveBet 4 ''WON'' cupDay)) 1 =
     Some (demoUser\<lparr>user_balance := Finite 1020\<rparr>) \<and>
   resolveBet 4 ''WON'' cupDay \<noteq> cupDay"
proof -
  have r: "resolveBet 4 ''WON'' cupDay =
     cupDay\<lparr>users := [(1, demoUser\<lparr>user_balance := Finite 1020\<rparr>), (2, secondUser)],
            bets := [(1, cupBet 1 1 80 ''PENDING''), (2, cupBet 2 1 40 ''PENDING''),
                     (3, cupBet 3 2 20 ''PENDING''), (4, cupBet 4 1 20 ''WON'')]\<rparr>"
    by (simp add: resolveBet_def resolveBet_start_def getUser_def resolveBet_setStatus_def
          example_defs roundDouble_examples)
  have "bets (resolveBet 4 ''WON'' cupDay) \<noteq> bets cupDay"
    unfolding r by (simp add: cupDay_def cupBet_def)
  then have "resolveBet 4 ''WON'' cupDay \<noteq> cupDay" by auto
  then show ?thesis unfolding r by (simp add: cupDay_def demoUser_def)
qed

subsection \<open>Settling a finished match\<close>

text \<open>
  C9. When no match has the id, or the match is not FINISHED, or one of its full-time
  scores is \<open>null\<close>, \<open>resolveBetsForMatch\<close> leaves the whole storage as it was.
\<close>

theorem resolveBetsForMatch_guarded:
  assumes "find (\<lambda>match. match_id match = matchId) (map snd (matches s)) = None \<or>
     (\<exists>match. find (\<lambda>match. match_id match = matchId) (map snd (matches s)) = Some match \<and>
        (match_status match \<noteq> ''FINISHED'' \<or> match_homeScore match = None \<or>
         match_awayScore match = None))"
  shows "resolveBetsForMatch matchId s = s"
  using assms
  by (auto simp: resolveBetsForMatch_def resolveBetsForMatch_start_def split: option.splits)

theorem resolveBetsForMatch_guarded_witness:
  "resolveBetsForMatch 1 openShop = openShop \<and> resolveBetsForMatch 7 openShop = openShop \<and>
   bet_status singleBet = ''PENDING''"
proof -
  have 1: "find (\<lambda>match. match_id match = 1) (map snd (matches openShop)) = Some derby"
    and 2: "match_status derby \<noteq> ''FINISHED''"
    and 7: "find (\<lambda>match. match_id match = 7) (map snd (matches openShop)) = None"
    by (simp_all add: openShop_def derby_def)
  from 1 2 have "resolveBetsForMatch 1 openShop = openShop"
    by (intro resolveBetsForMatch_guarded) simp
  moreover from 7 have "resolveBetsForMatch 7 openShop = openShop"
    by (intro resolveBetsForMatch_guarded) simp
  ultimately show ?thesis by (simp add: singleBet_def)
qed

text \<open>
  C2. When the match is FINISHED with both full-time scores, a PENDING bet gets the
  status that the aggregation rule gives for its selections whose market exists and
  belongs to this match: LOST if one of them is neither a winner nor a push, otherwise
  PUSH if one of them is a push, otherwise WON (also when there is no such selection).
  Selections on other matches do not enter. Nothing else of the bet changes.
\<close>

theorem resolveBetsForMatch_pending_status:
  assumes "keyed_by_id s" and "finishedWith s matchId match h a"
    and "(k, bet) \<in> set (bets s)" and "bet_status bet = ''PENDING''"
  shows "map_of (bets (resolveBetsForMatch matchId s)) k =
     Some (bet\<lparr>bet_status :=
        aggregateStatus (relevantMarkets s matchId bet) h a
          (orZero (match_htHomeScore match)) (orZero (match_htAwayScore match))\<rparr>)"
  using resolveBetsForMatch_row [OF assms(1,2,3)] assms(4)
  by (simp add: settleRow_def betOutcome_def)

theorem resolveBetsForMatch_pending_status_witness:
  "map_of (bets (resolveBetsForMatch 1 cupDay)) 1 = Some (cupBet 1 1 80 ''PUSH'') \<and>
   map_of (bets (resolveBetsForMatch 1 cupDay)) 2 = Some (cupBet 2 1 40 ''LOST'') \<and>
   map_of (bets (resolveBetsForMatch 1 cupDay)) 3 = Some (cupBet 3 2 20 ''WON'')"
proof -
  have f: "finishedWith cupDay 1 cupFinal 1 1"
    by (simp add: finishedWith_def cupDay_def cupFinal_def)
  have m: "(1, cupBet 1 1 80 ''PENDING'') \<in> set (bets cupDay)"
    "(2, cupBet 2 1 40 ''PENDING'') \<in> set (bets cupDay)"
    "(3, cupBet 3 2 20 ''PENDING'') \<in> set (bets cupDay)"
    by (simp_all add: cupDay_def)
  have p: "bet_status (cupBet i u w ''PENDING'') = ''PENDING''" for i u w
    by (simp add: cupBet_def)
  from resolveBetsForMatch_pending_status [OF keyed_examples(2) f m(1) p]
    resolveBetsForMatch_pending_status [OF keyed_examples(2) f m(2) p]
    resolveBetsForMatch_pending_status [OF keyed_examples(2) f m(3) p]
  show ?thesis
    by (simp add: relevantMarkets_def aggregateStatus_def isBetWinner_def isBetPush_def
          orZero_def cupDay_def cupBet_def cupMarket_def cupSelection_def
          cupFinal_def)
qed

text \<open>
  C6. \<open>resolveBetsForMatch\<close> leaves every bet that is not PENDING as it is, and a second
  run for the same match changes nothing any more.
\<close>

theorem resolveBetsForMatch_idempotent:
  assumes "keyed_by_id s"
  shows "(\<forall>(k, bet) \<in> set (bets s). bet_status bet \<noteq> ''PENDING'' \<longrightarrow>
            map_of (bets (resolveBetsForMatch matchId s)) k = Some bet) \<and>
         resolveBetsForMatch matchId (resolveBetsForMatch matchId s) = resolveBetsForMatch matchId s"
proof (cases "\<exists>match h a. finishedWith s matchId match h a")
  case False
  from assms have d: "distinct (map fst (bets s))" by (simp add: keyed_by_id_def)
  from resolveBetsForMatch_not_finished [OF False] d show ?thesis by auto
next
  case True
  then obtain match h a where fin: "finishedWith s matchId match h a" by blast
  have one: "\<forall>(k, bet) \<in> set (bets s). bet_status bet \<noteq> ''PENDING'' \<longrightarrow>
            map_of (bets (resolveBetsForMatch matchId s)) k = Some bet"
    using resolveBetsForMatch_row [OF assms fin] by (auto simp: settleRow_def)
  have "\<forall>(k, b) \<in> set (bets (resolveBetsForMatch matchId s)). bet_status b \<noteq> ''PENDING''"
    unfolding resolveBetsForMatch_bets [OF assms fin]
    by (auto simp: settleRow_def betOutcome_def aggregateStatus_not_pending)
  then have "resolveBetsForMatch matchId (resolveBetsForMatch matchId s) = resolveBetsForMatch matchId s"
    by (rule resolveBetsForMatch_no_pending)
  with one show ?thesis by simp
qed

theorem resolveBetsForMatch_idempotent_witness:
  "map_of (bets (resolveBetsForMatch 1 cupDay)) 4 = Some (cupBet 4 1 20 ''LOST'') \<and>
   resolveBetsForMatch 1 (resolveBetsForMatch 1 cupDay) = resolveBetsForMatch 1 cupDay"
proof -
  have m: "(4, cupBet 4 1 20 ''LOST'') \<in> set (bets cupDay)"
    by (simp add: cupDay_def)
  from resolveBetsForMatch_idempotent [OF keyed_examples(2), of 1] m
  show ?thesis by (auto simp: cupBet_def)
qed

text \<open>
  C7, as the code has it. A match is set to FINISHED with the score 2-1. A PENDING bet
  with the stored potential win 18.5 has exactly one selection, on a market of type
  \<open>1\<close> of that match, and no other PENDING bet of its owner wins in the pass. Then, once
  \<open>updateMatchStatus\<close> and the jobs it leaves on the microtask queue have run, the bet
  is WON and the balance of the owner is the sum \<open>balance + 18.5\<close> that JavaScript
  computes (C3). The stake and the odds of the scenario do not enter.
\<close>

theorem updateMatchStatus_home_win_pays:
  assumes keyed: "keyed_by_id s"
    and match: "map_of (matches s) matchId = Some match"
    and row: "(k, bet) \<in> set (bets s)"
    and pending: "bet_status bet = ''PENDING''"
    and win: "bet_potentialWin bet = Finite 18.5"
    and single: "filter (\<lambda>selection. selection_betId selection = bet_id bet)
                   (map snd (betSelections s)) = [selection]"
    and market: "map_of (markets s) (selection_marketId selection) = Some market"
    and type: "market_type market = ''1''"
    and of_match: "market_matchId market = matchId"
    and owner: "map_of (users s) (bet_userId bet) = Some owner"
    and no_other_winner: "\<forall>(k', bet') \<in> set (bets s).
        bet_status bet' = ''PENDING'' \<and> bet_userId bet' = bet_userId bet \<and>
        aggregateStatus (relevantMarkets s matchId bet') 2 1
          (orZero (case htHomeScore of Some v \<Rightarrow> v | None \<Rightarrow> match_htHomeScore match))
          (orZero (case htAwayScore of Some v \<Rightarrow> v | None \<Rightarrow> match_htAwayScore match)) = ''WON''
        \<longrightarrow> k' = k"
  shows "map_of (bets (snd (updateMatchStatus matchId ''FINISHED'' (Some 2) (Some 1)
                              htHomeScore htAwayScore s))) k =
           Some (bet\<lparr>bet_status := ''WON''\<rparr>) \<and>
         map_of (users (snd (updateMatchStatus matchId ''FINISHED'' (Some 2) (Some 1)
                               htHomeScore htAwayScore s))) (bet_userId bet) =
           Some (owner\<lparr>user_balance := jsAdd (user_balance owner) (Finite 18.5)\<rparr>)"
proof -
  define updatedMatch where "updatedMatch = match\<lparr>
      match_status := ''FINISHED'', match_homeScore := Some 2, match_awayScore := Some 1,
      match_htHomeScore := (case htHomeScore of Some v \<Rightarrow> v | None \<Rightarrow> match_htHomeScore match),
      match_htAwayScore := (case htAwayScore of Some v \<Rightarrow> v | None \<Rightarrow> match_htAwayScore match)\<rparr>"
  define s1 where "s1 = s\<lparr>matches := AList.update matchId updatedMatch (matches s)\<rparr>"
  have run: "snd (updateMatchStatus matchId ''FINISHED'' (Some 2) (Some 1) htHomeScore htAwayScore s) =
             resolveBetsForMatch matchId s1"
    using match by (simp add: updateMatchStatus_def Let_def s1_def updatedMatch_def)
  from match have "(matchId, match) \<in> set (matches s)" by (rule map_of_SomeD)
  with keyed have "match_id match = matchId" by (auto simp: keyed_by_id_def)
  then have "match_id updatedMatch = matchId" by (simp add: updatedMatch_def)
  with keyed have keyed1: "keyed_by_id s1"
    unfolding s1_def by (rule keyed_by_id_matches_update)
  then have "find (\<lambda>match. match_id match = matchId) (map snd (matches s1)) =
             map_of (matches s1) matchId"
    by (intro find_keyed) (simp_all add: keyed_by_id_def)
  then have fin: "finishedWith s1 matchId updatedMatch 2 1"
    by (simp add: finishedWith_def s1_def update_conv' updatedMatch_def)
  have rel: "relevantMarkets s1 matchId bet = [market]"
    using single market of_match by (simp add: relevantMarkets_def s1_def)
  have out: "betOutcome s1 matchId updatedMatch 2 1 bet = ''WON''"
    using type
    by (simp add: betOutcome_def rel aggregateStatus_def isBetWinner_def isBetPush_def)
  from row have row1: "(k, bet) \<in> set (bets s1)" by (simp add: s1_def)
  from owner have owner1: "map_of (users s1) (bet_userId bet) = Some owner" by (simp add: s1_def)
  from no_other_winner have only1: "\<forall>(k', bet') \<in> set (bets s1).
        bet_status bet' = ''PENDING'' \<and> betOutcome s1 matchId updatedMatch 2 1 bet' = ''WON'' \<and>
        bet_userId bet' = bet_userId bet \<longrightarrow> k' = k"
    by (auto simp: s1_def betOutcome_def updatedMatch_def)
  from resolveBetsForMatch_row [OF keyed1 fin row1] pending out
  have "map_of (bets (resolveBetsForMatch matchId s1)) k = Some (bet\<lparr>bet_status := ''WON''\<rparr>)"
    by (simp add: settleRow_def)
  moreover from resolveBetsForMatch_credit [OF keyed1 fin row1 pending out owner1 only1] win
  have "map_of (users (resolveBetsForMatch matchId s1)) (bet_userId bet) =
        Some (owner\<lparr>user_balance := jsAdd (user_balance owner) (Finite 18.5)\<rparr>)"
    by simp
  ultimately show ?thesis unfolding run by simp
qed

theorem updateMatchStatus_home_win_pays_witness:
  "map_of (bets (snd (updateMatchStatus 1 ''FINISHED'' (Some 2) (Some 1) None None hedgedShop))) 1 =
     Some (singleBet\<lparr>bet_status := ''WON''\<rparr>) \<and>
   map_of (users hedgedShop) 1 = Some (demoUser\<lparr>user_balance := Finite 1000\<rparr>) \<and>
   map_of (users (snd (updateMatchStatus 1 ''FINISHED'' (Some 2) (Some 1) None None hedgedShop))) 1 =
     Some (demoUser\<lparr>user_balance := Finite 1018.5\<rparr>) \<and>
   bet_stake singleBet = Finite 10 \<and> bet_totalOdds singleBet = roundDouble 1.85 \<and>
   market_odds homeWin = roundDouble 1.85 \<and>
   (3, hedgeBet) \<in> set (bets hedgedShop) \<and> bet_userId hedgeBet = bet_userId singleBet \<and>
   bet_status hedgeBet = ''PENDING''"
proof -
  let ?selection = "\<lparr>selection_id = 1, selection_betId = 1, selection_marketId = 1,
                     selection_odds = roundDouble 1.85\<rparr>"
  have 1: "map_of (matches hedgedShop) 1 = Some derby"
    and 2: "(1, singleBet) \<in> set (bets hedgedShop)"
    and 3: "bet_status singleBet = ''PENDING''"
    and 4: "bet_potentialWin singleBet = Finite 18.5"
    and 5: "filter (\<lambda>selection. selection_betId selection = bet_id singleBet)
              (map snd (betSelections hedgedShop)) = [?selection]"
    and 6: "map_of (markets hedgedShop) (selection_marketId ?selection) = Some homeWin"
    and 7: "market_type homeWin = ''1''"
    and 8: "market_matchId homeWin = 1"
    and 9: "map_of (users hedgedShop) (bet_userId singleBet) = Some demoUser"
    by (simp_all add: hedgedShop_def singleBet_def rivalBet_def hedgeBet_def homeWin_def)
  have 10: "\<forall>(k', bet') \<in> set (bets hedgedShop).
        bet_status bet' = ''PENDING'' \<and> bet_userId bet' = bet_userId singleBet \<and>
        aggregateStatus (relevantMarkets hedgedShop 1 bet') 2 1
          (orZero (case None of Some v \<Rightarrow> v | None \<Rightarrow> match_htHomeScore derby))
          (orZero (case None of Some v \<Rightarrow> v | None \<Rightarrow> match_htAwayScore derby)) = ''WON''
        \<longrightarrow> k' = 1"
    by (simp add: hedgedShop_def singleBet_def rivalBet_def hedgeBet_def homeWin_def awayWin_def
          derby_def relevantMarkets_def aggregateStatus_def isBetWinner_def isBetPush_def
          orZero_def)
  from updateMatchStatus_home_win_pays [OF keyed_examples(4) 1 2 3 4 5 6 7 8 9 10]
  show ?thesis
    by (simp add: hedgedShop_def singleBet_def hedgeBet_def demoUser_def homeWin_def
          roundDouble_examples)
qed

text \<open>
  C7, as the claim states it, fails, for two reasons. In \<open>busyShop\<close> everything the
  claim asks for holds, and user 1 has a second PENDING bet on the same market, with
  potential win 185: after \<open>updateMatchStatus\<close> both bets are WON and the balance has gone
  from 1000 to 1185, not to 1018.5. In \<open>pennyShop\<close> the bet is the only one of its owner,
  whose balance is the double of \<open>0.1\<close>: the balance becomes the double \<open>18.6\<close>, and the
  difference to the balance before is not 18.5.
\<close>

theorem updateMatchStatus_home_win_counterexample:
  "keyed_by_id busyShop \<and>
   map_of (matches busyShop) 1 = Some derby \<and>
   (1, singleBet) \<in> set (bets busyShop) \<and>
   bet_status singleBet = ''PENDING'' \<and> bet_stake singleBet = Finite 10 \<and>
   bet_potentialWin singleBet = Finite 18.5 \<and>
   filter (\<lambda>selection. selection_betId selection = bet_id singleBet)
     (map snd (betSelections busyShop)) =
     [\<lparr>selection_id = 1, selection_betId = 1, selection_marketId = 1,
        selection_odds = roundDouble 1.85\<rparr>] \<and>
   map_of (markets busyShop) 1 = Some homeWin \<and>
   market_type homeWin = ''1'' \<and> market_odds homeWin = roundDouble 1.85 \<and>
   market_matchId homeWin = 1 \<and>
   map_of (users busyShop) (bet_userId singleBet) = Some (demoUser\<lparr>user_balance := Finite 1000\<rparr>) \<and>
   map_of (bets (snd (updateMatchStatus 1 ''FINISHED'' (Some 2) (Some 1) None None busyShop))) 1 =
     Some (singleBet\<lparr>bet_status := ''WON''\<rparr>) \<and>
   map_of (bets (snd (updateMatchStatus 1 ''FINISHED'' (Some 2) (Some 1) None None busyShop))) 3 =
     Some (secondBet\<lparr>bet_status := ''WON''\<rparr>) \<and>
   map_of (users (snd (updateMatchStatus 1 ''FINISHED'' (Some 2) (Some 1) None None busyShop))) 1 =
     Some (demoUser\<lparr>user_balance := Finite 1185\<rparr>) \<and>
   keyed_by_id pennyShop \<and>
   map_of (matches pennyShop) 1 = Some derby \<and>
   bets pennyShop = [(1, singleBet), (2, rivalBet)] \<and> bet_userId rivalBet = 2 \<and>
   filter (\<lambda>selection. selection_betId selection = bet_id singleBet)
     (map snd (betSelections pennyShop)) =
     [\<lparr>selection_id = 1, selection_betId = 1, selection_marketId = 1,
        selection_odds = roundDouble 1.85\<rparr>] \<and>
   map_of (markets pennyShop) 1 = Some homeWin \<and>
   map_of (users pennyShop) (bet_userId singleBet) =
     Some (pennyUser\<lparr>user_balance := Finite (3602879701896397 / 36028797018963968)\<rparr>) \<and>
   map_of (bets (snd (updateMatchStatus 1 ''FINISHED'' (Some 2) (Some 1) None None pennyShop))) 1 =
     Some (singleBet\<lparr>bet_status := ''WON''\<rparr>) \<and>
   map_of (users (snd (updateMatchStatus 1 ''FINISHED'' (Some 2) (Some 1) None None pennyShop))) 1 =
     Some (pennyUser\<lparr>user_balance := Finite (2617717283409101 / 140737488355328)\<rparr>) \<and>
   (2617717283409101 / 140737488355328 - 3602879701896397 / 36028797018963968 :: rat) \<noteq> 18.5"
proof -
  have busy: "snd (updateMatchStatus 1 ''FINISHED'' (Some 2) (Some 1) None None busyShop) =
    busyShop\<lparr>users := [(1, demoUser\<lparr>user_balance := Finite 1185\<rparr>), (2, secondUser)],
             matches := [(1, derby\<lparr>match_status := ''FINISHED'', match_homeScore := Some 2,
                                    match_awayScore := Some 1\<rparr>)],
             bets := [(1, singleBet\<lparr>bet_status := ''WON''\<rparr>),
                      (2, rivalBet\<lparr>bet_status := ''LOST''\<rparr>),
                      (3, secondBet\<lparr>bet_status := ''WON''\<rparr>)]\<rparr>"
    by (simp add: updateMatchStatus_def resolveBetsForMatch_def resolveBetsForMatch_start_def
          resolveBet_start_def getUser_def resolveBet_setStatus_def isBetWinner_def
          isBetPush_def orZero_def Let_def busyShop_def demoUser_def secondUser_def derby_def
          homeWin_def awayWin_def singleBet_def rivalBet_def secondBet_def
          roundDouble_examples)
  have penny: "snd (updateMatchStatus 1 ''FINISHED'' (Some 2) (Some 1) None None pennyShop) =
    pennyShop\<lparr>users := [(1, pennyUser\<lparr>user_balance := Finite (2617717283409101 / 140737488355328)\<rparr>),
                        (2, secondUser)],
              matches := [(1, derby\<lparr>match_status := ''FINISHED'', match_homeScore := Some 2,
                                     match_awayScore := Some 1\<rparr>)],
              bets := [(1, singleBet\<lparr>bet_status := ''WON''\<rparr>),
                       (2, rivalBet\<lparr>bet_status := ''LOST''\<rparr>)]\<rparr>"
    by (simp add: updateMatchStatus_def resolveBetsForMatch_def resolveBetsForMatch_start_def
          resolveBet_start_def getUser_def resolveBet_setStatus_def isBetWinner_def
          isBetPush_def orZero_def Let_def pennyShop_def pennyUser_def secondUser_def derby_def
          homeWin_def awayWin_def singleBet_def rivalBet_def
          roundDouble_tenth roundDouble_tenth_plus_win)
  have "keyed_by_id busyShop \<and>
   map_of (matches busyShop) 1 = Some derby \<and>
   (1, singleBet) \<in> set (bets busyShop) \<and>
   bet_status singleBet = ''PENDING'' \<and> bet_stake singleBet = Finite 10 \<and>
   bet_potentialWin singleBet = Finite 18.5 \<and>
   filter (\<lambda>selection. selection_betId selection = bet_id singleBet)
     (map snd (betSelections busyShop)) =
     [\<lparr>selection_id = 1, selection_betId = 1, selection_marketId = 1,
        selection_odds = roundDouble 1.85\<rparr>] \<and>
   map_of (markets busyShop) 1 = Some homeWin \<and>
   market_type homeWin = ''1'' \<and> market_odds homeWin = roundDouble 1.85 \<and>
   market_matchId homeWin = 1 \<and>
   map_of (users busyShop) (bet_userId singleBet) = Some (demoUser\<lparr>user_balance := Finite 1000\<rparr>) \<and>
   map_of (bets (snd (updateMatchStatus 1 ''FINISHED'' (Some 2) (Some 1) None None busyShop))) 1 =
     Some (singleBet\<lparr>bet_status := ''WON''\<rparr>) \<and>
   map_of (bets (snd (updateMatchStatus 1 ''FINISHED'' (Some 2) (Some 1) None None busyShop))) 3 =
     Some (secondBet\<lparr>bet_status := ''WON''\<rparr>) \<and>
   map_of (users (snd (updateMatchStatus 1 ''FINISHED'' (Some 2) (Some 1) None None busyShop))) 1 =
     Some (demoUser\<lparr>user_balance := Finite 1185\<rparr>)"
    unfolding busy using keyed_examples(5)
    by (simp add: busyShop_def demoUser_def singleBet_def secondBet_def homeWin_def)
  moreover have "keyed_by_id pennyShop \<and>
   map_of (matches pennyShop) 1 = Some derby \<and>
   bets pennyShop = [(1, singleBet), (2, rivalBet)] \<and> bet_userId rivalBet = 2 \<and>
   filter (\<lambda>selection. selection_betId selection = bet_id singleBet)
     (map snd (betSelections pennyShop)) =
     [\<lparr>selection_id = 1, selection_betId = 1, selection_marketId = 1,
        selection_odds = roundDouble 1.85\<rparr>] \<and>
   map_of (markets pennyShop) 1 = Some homeWin \<and>
   map_of (users pennyShop) (bet_userId singleBet) =
     Some (pennyUser\<lparr>user_balance := Finite (3602879701896397 / 36028797018963968)\<rparr>) \<and>
   map_of (bets (snd (updateMatchStatus 1 ''FINISHED'' (Some 2) (Some 1) None None pennyShop))) 1 =
     Some (singleBet\<lparr>bet_status := ''WON''\<rparr>) \<and>
   map_of (users (snd (updateMatchStatus 1 ''FINISHED'' (Some 2) (Some 1) None None pennyShop))) 1 =
     Some (pennyUser\<lparr>user_balance := Finite (2617717283409101 / 140737488355328)\<rparr>)"
    unfolding penny using keyed_examples(7)
    by (simp add: pennyShop_def pennyUser_def singleBet_def rivalBet_def roundDouble_tenth)
  moreover have "(2617717283409101 / 140737488355328 - 3602879701896397 / 36028797018963968 :: rat) \<noteq> 18.5"
    by simp
  ultimately show ?thesis by (simp only: simp_thms)
qed

text \<open>
  C10. A settlement pass resolves every PENDING bet of the storage, and a PENDING bet
  with no selection on the finished match becomes WON and its owner is to be credited
  with its potential win. Lemma \<open>resolveBetsForMatch_unrelated_won\<close> proves the statuses,
  and the credit when no other bet of the same owner wins in the pass. The credit fails
  otherwise: \<open>resolveBet\<close> is called without \<open>await\<close>, every call has read the owner's
  row before any of them writes, and the last write stands. In \<open>twoUnrelated\<close> both bets
  of user 1 become WON, with potential wins 10 and 20, and the balance goes from 1000 to
  1020. The storage satisfies the invariant (\<open>keyed_examples\<close>).
\<close>

theorem resolveBetsForMatch_lost_update:
  "finishedWith twoUnrelated 1 cupFinal 1 1 \<and>
   relevantMarkets twoUnrelated 1 (cupBet 1 1 10 ''PENDING'') = [] \<and>
   relevantMarkets twoUnrelated 1 (cupBet 2 1 20 ''PENDING'') = [] \<and>
   map_of (users twoUnrelated) 1 = Some (demoUser\<lparr>user_balance := Finite 1000\<rparr>) \<and>
   bets (resolveBetsForMatch 1 twoUnrelated) =
     [(1, cupBet 1 1 10 ''WON''), (2, cupBet 2 1 20 ''WON'')] \<and>
   map_of (users (resolveBetsForMatch 1 twoUnrelated)) 1 =
     Some (demoUser\<lparr>user_balance := Finite 1020\<rparr>)"
proof -
  have "resolveBetsForMatch 1 twoUnrelated =
    twoUnrelated\<lparr>users := [(1, demoUser\<lparr>user_balance := Finite 1020\<rparr>)],
                 bets := [(1, cupBet 1 1 10 ''WON''), (2, cupBet 2 1 20 ''WON'')]\<rparr>"
    by (simp add: resolveBetsForMatch_def resolveBetsForMatch_start_def resolveBet_start_def
          getUser_def resolveBet_setStatus_def isBetWinner_def isBetPush_def orZero_def
          example_defs roundDouble_examples)
  moreover have "finishedWith twoUnrelated 1 cupFinal 1 1"
    by (simp add: finishedWith_def twoUnrelated_def cupFinal_def)
  moreover have "relevantMarkets twoUnrelated 1 (cupBet 1 1 10 ''PENDING'') = []"
    "relevantMarkets twoUnrelated 1 (cupBet 2 1 20 ''PENDING'') = []"
    by (simp_all add: relevantMarkets_def twoUnrelated_def cupBet_def
          cupMarket_def cupSelection_def)
  moreover have "map_of (users twoUnrelated) 1 = Some (demoUser\<lparr>user_balance := Finite 1000\<rparr>)"
    by (simp add: twoUnrelated_def demoUser_def)
  ultimately show ?thesis by simp
qed

end
